theory Spec2Isabelle
  imports Complex_Main "HOL-Library.Sublist"
begin

section \<open>Python values, errors and string primitives\<close>

text \<open>
  The driver \<^verbatim>\<open>ZIHDAWG8\<close> is Python. Exceptions are values of the type \<open>error\<close>; a
  function that may raise returns \<open>error + 'a\<close> with \<open>Inl\<close> for the exception. Strings
  are \<open>char list\<close>; node paths, type tags and wave names are taken to be ASCII.
\<close>

datatype error =
    Exception string        \<comment> \<open>\<^verbatim>\<open>raise Exception(msg)\<close> in the driver\<close>
  | SessionError string     \<comment> \<open>raised inside a vendor call, propagated unchanged\<close>
  | KeyError string         \<comment> \<open>\<^verbatim>\<open>d[k]\<close> with a missing key\<close>
  | ValueError string       \<comment> \<open>\<^verbatim>\<open>int(s)\<close> on a non-numeric string\<close>
  | IndexError string       \<comment> \<open>\<^verbatim>\<open>str.format\<close> with too few arguments\<close>
  | OSError string          \<comment> \<open>\<^verbatim>\<open>open\<close> failing\<close>
  | ValidationError string  \<comment> \<open>a validator rejecting a value\<close>
  | NotImplementedError string

text \<open>\<^verbatim>\<open>s.split(sep)\<close> with an explicit one-character separator: every occurrence
  splits, empty pieces are kept, and the empty string gives one empty piece.\<close>

fun split_str :: "char \<Rightarrow> string \<Rightarrow> string list" where
  "split_str sep [] = [[]]"
| "split_str sep (c # cs) =
     (if c = sep then [] # split_str sep cs
      else (case split_str sep cs of
              [] \<Rightarrow> [[c]]
            | w # ws \<Rightarrow> (c # w) # ws))"

text \<open>\<^verbatim>\<open>sep.join(pieces)\<close>.\<close>

fun join_str :: "string \<Rightarrow> string list \<Rightarrow> string" where
  "join_str sep [] = []"
| "join_str sep [w] = w"
| "join_str sep (w # v # ws) = w @ sep @ join_str sep (v # ws)"

text \<open>\<^verbatim>\<open>s.lower()\<close> on ASCII text: the 26 capital letters map to their small
  letters, every other character stays.\<close>

definition lower_char :: "char \<Rightarrow> char" where
  "lower_char c =
     (case map_of (zip ''ABCDEFGHIJKLMNOPQRSTUVWXYZ'' ''abcdefghijklmnopqrstuvwxyz'') c of
        None \<Rightarrow> c
      | Some l \<Rightarrow> l)"

definition lower_str :: "string \<Rightarrow> string" where
  "lower_str s = map lower_char s"

section \<open>Deriving a parameter name from a node path\<close>

text \<open>
  \<^verbatim>\<open>
  def _generate_parameter_name(node):
      values = node.split('/')
      return '_'.join(values[2:]).lower()
  \<close>
  The slice \<^verbatim>\<open>values[2:]\<close> is empty when there are fewer than three pieces, as
  \<open>drop 2\<close> is.
\<close>

definition generate_parameter_name :: "string \<Rightarrow> string" where
  "generate_parameter_name node =
     (let values = split_str CHR ''/'' node
      in lower_str (join_str ''_'' (drop 2 values)))"

section \<open>The compiler sub-module of the device session\<close>

text \<open>
  Values passed to and returned by the vendor session. A waveform vector is a list of
  samples; doubles are modelled as reals (not-a-number is left out).
\<close>

datatype py_val =
    PNone
  | PInt int
  | PDouble real
  | PStr string
  | PVector "real list"

text \<open>
  \<^verbatim>\<open>self.awg_module\<close> is a vendor object outside the driver. What the driver can observe
  of it is the outcome of each call: the \<open>k\<close>-th \<^verbatim>\<open>set\<close>, \<^verbatim>\<open>getInt\<close>,
  \<^verbatim>\<open>getString\<close> and \<^verbatim>\<open>getDouble\<close> call (counted from 0, per method) either raises
  inside the vendor library or returns a value. The state threaded through the driver
  counts the calls made so far and logs them in order, together with the sleeps.
\<close>

record awg_module =
  set_outcome :: "nat \<Rightarrow> error option"
  getInt_outcome :: "nat \<Rightarrow> error + int"
  getString_outcome :: "nat \<Rightarrow> error + string"
  getDouble_outcome :: "nat \<Rightarrow> error + real"

datatype awg_call =
    AwgSet string py_val
  | AwgGetInt string
  | AwgGetString string
  | AwgGetDouble string
  | TimeSleep

record awg_state =
  n_set :: nat
  n_getInt :: nat
  n_getString :: nat
  n_getDouble :: nat
  calls :: "awg_call list"

definition awg_init :: awg_state where
  "awg_init = \<lparr>n_set = 0, n_getInt = 0, n_getString = 0, n_getDouble = 0, calls = []\<rparr>"

definition awg_set :: "awg_module \<Rightarrow> string \<Rightarrow> py_val \<Rightarrow> awg_state \<Rightarrow> (error + unit) \<times> awg_state" where
  "awg_set m path v s =
     ((case set_outcome m (n_set s) of None \<Rightarrow> Inr () | Some e \<Rightarrow> Inl e),
      s\<lparr>n_set := Suc (n_set s), calls := calls s @ [AwgSet path v]\<rparr>)"

definition awg_getInt :: "awg_module \<Rightarrow> string \<Rightarrow> awg_state \<Rightarrow> (error + int) \<times> awg_state" where
  "awg_getInt m path s =
     (getInt_outcome m (n_getInt s),
      s\<lparr>n_getInt := Suc (n_getInt s), calls := calls s @ [AwgGetInt path]\<rparr>)"

definition awg_getString :: "awg_module \<Rightarrow> string \<Rightarrow> awg_state \<Rightarrow> (error + string) \<times> awg_state" where
  "awg_getString m path s =
     (getString_outcome m (n_getString s),
      s\<lparr>n_getString := Suc (n_getString s), calls := calls s @ [AwgGetString path]\<rparr>)"

definition awg_getDouble :: "awg_module \<Rightarrow> string \<Rightarrow> awg_state \<Rightarrow> (error + real) \<times> awg_state" where
  "awg_getDouble m path s =
     (getDouble_outcome m (n_getDouble s),
      s\<lparr>n_getDouble := Suc (n_getDouble s), calls := calls s @ [AwgGetDouble path]\<rparr>)"

definition time_sleep :: "awg_state \<Rightarrow> awg_state" where
  "time_sleep s = s\<lparr>calls := calls s @ [TimeSleep]\<rparr>"

section \<open>Uploading a sequence program\<close>

text \<open>
  \<^verbatim>\<open>
  def upload_sequence_program(self, awg_number, sequence_program):
      self.awg_module.set('awgModule/index', awg_number)
      self.awg_module.set('awgModule/compiler/sourcestring', sequence_program)
      while self.awg_module.getInt('awgModule/compiler/status') == -1:
          time.sleep(0.1)

      if self.awg_module.getInt('awgModule/compiler/status') == 1:
          raise Exception(self.awg_module.getString('awgModule/compiler/statusstring'))
      while self.awg_module.getDouble('awgModule/progress') < 1.0:
          time.sleep(0.1)

      return self.awg_module.getInt('awgModule/compiler/status')
  \<close>
  Neither loop has a bound, so each takes fuel: one unit per evaluation of the loop
  condition, and \<open>None\<close> when the fuel runs out before the condition turns false.
\<close>

fun wait_compiler :: "nat \<Rightarrow> awg_module \<Rightarrow> awg_state \<Rightarrow> ((error + unit) \<times> awg_state) option" where
  "wait_compiler 0 m s = None"
| "wait_compiler (Suc fuel) m s =
     (case awg_getInt m ''awgModule/compiler/status'' s of
        (Inl e, s1) \<Rightarrow> Some (Inl e, s1)
      | (Inr v, s1) \<Rightarrow>
          if v = - 1 then wait_compiler fuel m (time_sleep s1)
          else Some (Inr (), s1))"

fun wait_progress :: "nat \<Rightarrow> awg_module \<Rightarrow> awg_state \<Rightarrow> ((error + unit) \<times> awg_state) option" where
  "wait_progress 0 m s = None"
| "wait_progress (Suc fuel) m s =
     (case awg_getDouble m ''awgModule/progress'' s of
        (Inl e, s1) \<Rightarrow> Some (Inl e, s1)
      | (Inr p, s1) \<Rightarrow>
          if p < 1 then wait_progress fuel m (time_sleep s1)
          else Some (Inr (), s1))"

definition upload_sequence_program ::
  "nat \<Rightarrow> awg_module \<Rightarrow> int \<Rightarrow> string \<Rightarrow> awg_state \<Rightarrow> ((error + int) \<times> awg_state) option" where
  "upload_sequence_program fuel m awg_number sequence_program s =
     (case awg_set m ''awgModule/index'' (PInt awg_number) s of
        (Inl e, s1) \<Rightarrow> Some (Inl e, s1)
      | (Inr _, s1) \<Rightarrow>
     (case awg_set m ''awgModule/compiler/sourcestring'' (PStr sequence_program) s1 of
        (Inl e, s2) \<Rightarrow> Some (Inl e, s2)
      | (Inr _, s2) \<Rightarrow>
     (case wait_compiler fuel m s2 of
        None \<Rightarrow> None
      | Some (Inl e, s3) \<Rightarrow> Some (Inl e, s3)
      | Some (Inr _, s3) \<Rightarrow>
     (case awg_getInt m ''awgModule/compiler/status'' s3 of
        (Inl e, s4) \<Rightarrow> Some (Inl e, s4)
      | (Inr status, s4) \<Rightarrow>
          if status = 1 then
            (case awg_getString m ''awgModule/compiler/statusstring'' s4 of
               (Inl e, s5) \<Rightarrow> Some (Inl e, s5)
             | (Inr msg, s5) \<Rightarrow> Some (Inl (Exception msg), s5))
          else
     (case wait_progress fuel m s4 of
        None \<Rightarrow> None
      | Some (Inl e, s5) \<Rightarrow> Some (Inl e, s5)
      | Some (Inr _, s5) \<Rightarrow>
     (case awg_getInt m ''awgModule/compiler/status'' s5 of
        (Inl e, s6) \<Rightarrow> Some (Inl e, s6)
      | (Inr final, s6) \<Rightarrow> Some (Inr final, s6)))))))"

text \<open>
  A compiler that reads "in progress" twice and 1 from then on, with a status message.
\<close>

definition failing_module :: awg_module where
  "failing_module =
     \<lparr>set_outcome = (\<lambda>k. None),
      getInt_outcome = (\<lambda>k. if k < 2 then Inr (- 1) else Inr 1),
      getString_outcome = (\<lambda>k. Inr ''compiler message''),
      getDouble_outcome = (\<lambda>k. Inr 1)\<rparr>"

section \<open>The data session and the typed accessors\<close>

text \<open>
  \<^verbatim>\<open>self.daq\<close> is the vendor's data session. The outcome of a call may depend on
  everything done to the session before, so each outcome is a function of the log of
  earlier calls and of the call's arguments; the log is the state threaded through
  the accessors.
\<close>

datatype daq_call =
    SetInt string py_val
  | SetDouble string py_val
  | SetString string py_val
  | VectorWrite string py_val
  | GetInt string
  | GetDouble string
  | GetString string
  | VectorRead string

record daq_session =
  setInt_outcome :: "daq_call list \<Rightarrow> string \<Rightarrow> py_val \<Rightarrow> error option"
  setDouble_outcome :: "daq_call list \<Rightarrow> string \<Rightarrow> py_val \<Rightarrow> error option"
  setString_outcome :: "daq_call list \<Rightarrow> string \<Rightarrow> py_val \<Rightarrow> error option"
  vectorWrite_outcome :: "daq_call list \<Rightarrow> string \<Rightarrow> py_val \<Rightarrow> error option"
  getInt_result :: "daq_call list \<Rightarrow> string \<Rightarrow> error + int"
  getDouble_result :: "daq_call list \<Rightarrow> string \<Rightarrow> error + real"
  getString_result :: "daq_call list \<Rightarrow> string \<Rightarrow> error + string"
  vectorRead_result :: "daq_call list \<Rightarrow> string \<Rightarrow> error + real list"

definition raised :: "error option \<Rightarrow> error + unit" where
  "raised r = (case r of None \<Rightarrow> Inr () | Some e \<Rightarrow> Inl e)"

text \<open>
  \<^verbatim>\<open>
  def _setter(self, name, param_type, value):
      if param_type == "Integer (64 bit)" or param_type == 'Integer (enumerated)':
          self.daq.setInt(name, value)
      elif param_type == "Double":
          self.daq.setDouble(name, value)
      elif param_type == "String":
          self.daq.setString(name, value)
      elif param_type == "ZIVectorData":
          self.daq.vectorWrite(name, value)
  \<close>
  There is no final \<^verbatim>\<open>else\<close>: with any other type tag the function falls off its end.
\<close>

definition setter ::
  "daq_session \<Rightarrow> string \<Rightarrow> string \<Rightarrow> py_val \<Rightarrow> daq_call list \<Rightarrow> (error + unit) \<times> daq_call list" where
  "setter daq name param_type v hist =
     (if param_type = ''Integer (64 bit)'' \<or> param_type = ''Integer (enumerated)'' then
        (raised (setInt_outcome daq hist name v), hist @ [SetInt name v])
      else if param_type = ''Double'' then
        (raised (setDouble_outcome daq hist name v), hist @ [SetDouble name v])
      else if param_type = ''String'' then
        (raised (setString_outcome daq hist name v), hist @ [SetString name v])
      else if param_type = ''ZIVectorData'' then
        (raised (vectorWrite_outcome daq hist name v), hist @ [VectorWrite name v])
      else (Inr (), hist))"

text \<open>
  \<^verbatim>\<open>
  def _getter(self, name, param_type):
      if param_type == "Integer (64 bit)" or param_type == 'Integer (enumerated)':
          return self.daq.getInt(name)
      elif param_type == "Double":
          return self.daq.getDouble(name)
      elif param_type == "String":
          return self.daq.getString(name)
      elif param_type == "ZIVectorData":
          return self.daq.vectorRead(name)
  \<close>
  Falling off the end returns \<^verbatim>\<open>None\<close>.
\<close>

definition getter ::
  "daq_session \<Rightarrow> string \<Rightarrow> string \<Rightarrow> daq_call list \<Rightarrow> (error + py_val) \<times> daq_call list" where
  "getter daq name param_type hist =
     (if param_type = ''Integer (64 bit)'' \<or> param_type = ''Integer (enumerated)'' then
        (map_sum id PInt (getInt_result daq hist name), hist @ [GetInt name])
      else if param_type = ''Double'' then
        (map_sum id PDouble (getDouble_result daq hist name), hist @ [GetDouble name])
      else if param_type = ''String'' then
        (map_sum id PStr (getString_result daq hist name), hist @ [GetString name])
      else if param_type = ''ZIVectorData'' then
        (map_sum id PVector (vectorRead_result daq hist name), hist @ [VectorRead name])
      else (Inr PNone, hist))"

text \<open>A session every call of which raises inside the vendor library.\<close>

definition refusing_session :: daq_session where
  "refusing_session =
     \<lparr>setInt_outcome = (\<lambda>h p v. Some (SessionError ''ZIAPIException'')),
      setDouble_outcome = (\<lambda>h p v. Some (SessionError ''ZIAPIException'')),
      setString_outcome = (\<lambda>h p v. Some (SessionError ''ZIAPIException'')),
      vectorWrite_outcome = (\<lambda>h p v. Some (SessionError ''ZIAPIException'')),
      getInt_result = (\<lambda>h p. Inl (SessionError ''ZIAPIException'')),
      getDouble_result = (\<lambda>h p. Inl (SessionError ''ZIAPIException'')),
      getString_result = (\<lambda>h p. Inl (SessionError ''ZIAPIException'')),
      vectorRead_result = (\<lambda>h p. Inl (SessionError ''ZIAPIException''))\<rparr>"

section \<open>Binding parameters from the node tree\<close>

text \<open>
  The node tree is the result of \<^verbatim>\<open>json.loads\<close>: a dictionary from node identifiers to
  entries, iterated in insertion order, hence an association list. An entry has the
  keys \<^verbatim>\<open>Node\<close>, \<^verbatim>\<open>Type\<close>, \<^verbatim>\<open>Properties\<close>, \<^verbatim>\<open>Description\<close> and \<^verbatim>\<open>Unit\<close>; \<^verbatim>\<open>Options\<close>
  (labels by value, the keys being JSON strings) may be missing. The binder only asks
  whether \<^verbatim>\<open>'Read'\<close> and \<^verbatim>\<open>'Write'\<close> are \<^verbatim>\<open>in\<close> the properties, which for a string is
  a substring test and for a list a membership test.
\<close>

datatype py_props = PropsStr string | PropsList "string list"

fun is_substring :: "string \<Rightarrow> string \<Rightarrow> bool" where
  "is_substring pat [] = (pat = [])"
| "is_substring pat (c # cs) = (prefix pat (c # cs) \<or> is_substring pat cs)"

fun py_in :: "string \<Rightarrow> py_props \<Rightarrow> bool" where
  "py_in x (PropsStr s) = is_substring x s"
| "py_in x (PropsList l) = (x \<in> set l)"

record schema_entry =
  Node :: string
  Type :: string
  Properties :: py_props
  Options :: "(string \<times> string) list option"
  Description :: string
  Unit :: string

text \<open>
  \<^verbatim>\<open>int(s)\<close> on an ASCII string: the blank, tab, line feed, vertical tab, form feed
  and carriage return around the number are skipped (no other character is, the
  separators \<open>0x1C\<close> to \<open>0x1F\<close> included), one sign is allowed, and the rest must be
  decimal digits, in groups separated by single underscores. Interpreters from 3.11 on
  also refuse, by default, a text of more than 4300 digits; that limit is a setting of
  the interpreter and is left out.
\<close>

definition is_space :: "char \<Rightarrow> bool" where
  "is_space c = (c \<in> set [CHR '' '', CHR 0x09, CHR 0x0A, CHR 0x0B, CHR 0x0C, CHR 0x0D])"

definition strip :: "string \<Rightarrow> string" where
  "strip s = rev (dropWhile is_space (rev (dropWhile is_space s)))"

definition digit_val :: "char \<Rightarrow> int option" where
  "digit_val c = map_of (zip ''0123456789'' [0, 1, 2, 3, 4, 5, 6, 7, 8, 9]) c"

definition digits_val :: "string \<Rightarrow> int" where
  "digits_val ds = foldl (\<lambda>acc c. 10 * acc + the (digit_val c)) 0 ds"

definition valid_digits :: "string \<Rightarrow> bool" where
  "valid_digits body =
     list_all (\<lambda>g. g \<noteq> [] \<and> list_all (\<lambda>c. digit_val c \<noteq> None) g)
              (split_str CHR ''_'' body)"

definition py_int :: "string \<Rightarrow> int option" where
  "py_int s =
     (let t = strip s;
          negative = (t \<noteq> [] \<and> hd t = CHR ''-'');
          body = (if t \<noteq> [] \<and> (hd t = CHR ''-'' \<or> hd t = CHR ''+'') then tl t else t)
      in if valid_digits body
         then Some ((if negative then - 1 else 1) * digits_val (filter (\<lambda>c. c \<noteq> CHR ''_'') body))
         else None)"

text \<open>
  \<^verbatim>\<open>functools.partial(self._getter, node, type)\<close> and its setter twin are the closures
  handed to the parameter: they hold the path and the type tag.
\<close>

datatype command = GetterPartial string string | SetterPartial string string

text \<open>
  Modelled from the spec: \<^verbatim>\<open>validators.Enum\<close> is not among the sources. The spec (4.1)
  has it restrict the accepted values to the integers it was built from.
\<close>

datatype validator = Enum "int list"

fun validate :: "validator \<Rightarrow> py_val \<Rightarrow> bool" where
  "validate (Enum allowed) (PInt n) = (n \<in> set allowed)"
| "validate (Enum allowed) _ = False"

record parameter =
  set_cmd :: "command option"
  get_cmd :: "command option"
  vals :: "validator option"
  docstring :: string
  unit :: string

type_synonym registry = "string \<rightharpoonup> parameter"

text \<open>
  Modelled from the spec: \<^verbatim>\<open>Instrument.add_parameter\<close> is not among the sources. The
  spec (4.1) has it register the accessor on the driver under its derived name, a
  later registration under the same name replacing the earlier one.
\<close>

definition add_parameter :: "string \<Rightarrow> parameter \<Rightarrow> registry \<Rightarrow> registry" where
  "add_parameter name p reg = reg(name \<mapsto> p)"

text \<open>
  \<^verbatim>\<open>
  options = validators.Enum(*[int(val) for val in parameter['Options'].keys()]) \
      if parameter['Type'] == 'Integer (enumerated)' else None
  \<close>
  The lookup of \<^verbatim>\<open>Options\<close> and the conversions happen only for the enumerated type;
  a missing key raises \<^verbatim>\<open>KeyError\<close>, the first key that is no integer \<^verbatim>\<open>ValueError\<close>.
\<close>

fun int_keys :: "string list \<Rightarrow> error + int list" where
  "int_keys [] = Inr []"
| "int_keys (k # ks) =
     (case py_int k of
        None \<Rightarrow> Inl (ValueError k)
      | Some n \<Rightarrow> (case int_keys ks of Inl e \<Rightarrow> Inl e | Inr ns \<Rightarrow> Inr (n # ns)))"

definition enum_options :: "schema_entry \<Rightarrow> error + validator option" where
  "enum_options parameter =
     (if Type parameter = ''Integer (enumerated)'' then
        (case Options parameter of
           None \<Rightarrow> Inl (KeyError ''Options'')
         | Some opts \<Rightarrow>
             (case int_keys (map fst opts) of
                Inl e \<Rightarrow> Inl e
              | Inr ns \<Rightarrow> Inr (Some (Enum ns))))
      else Inr None)"

text \<open>
  \<^verbatim>\<open>
  def create_parameters_from_node_tree(self, parameters):
      for parameter in parameters.values():
          getter = partial(self._getter, parameter['Node'], parameter['Type']) if 'Read' in parameter[
              'Properties'] else None
          setter = partial(self._setter, parameter['Node'], parameter['Type']) if 'Write' in parameter[
              'Properties'] else None
          options = ...
          parameter_name = self._generate_parameter_name(parameter['Node'])
          self.add_parameter(name=parameter_name, set_cmd=setter, get_cmd=getter, vals=options,
                             docstring=parameter['Description'], unit=parameter['Unit'])
  \<close>
  \<open>bind_entry\<close> is the loop body. An exception ends the loop and leaves the parameters
  registered so far.
\<close>

definition bind_entry :: "schema_entry \<Rightarrow> registry \<Rightarrow> error + registry" where
  "bind_entry parameter reg =
     (let getter_cmd = (if py_in ''Read'' (Properties parameter)
                        then Some (GetterPartial (Node parameter) (Type parameter)) else None);
          setter_cmd = (if py_in ''Write'' (Properties parameter)
                        then Some (SetterPartial (Node parameter) (Type parameter)) else None)
      in case enum_options parameter of
           Inl e \<Rightarrow> Inl e
         | Inr options \<Rightarrow>
             (let parameter_name = generate_parameter_name (Node parameter)
              in Inr (add_parameter parameter_name
                        \<lparr>set_cmd = setter_cmd, get_cmd = getter_cmd, vals = options,
                         docstring = Description parameter, unit = Unit parameter\<rparr> reg)))"

fun create_parameters_from_node_tree ::
  "(string \<times> schema_entry) list \<Rightarrow> registry \<Rightarrow> error option \<times> registry" where
  "create_parameters_from_node_tree [] reg = (None, reg)"
| "create_parameters_from_node_tree ((key, parameter) # rest) reg =
     (case bind_entry parameter reg of
        Inl e \<Rightarrow> (Some e, reg)
      | Inr reg' \<Rightarrow> create_parameters_from_node_tree rest reg')"

text \<open>
  Modelled from the spec: the \<^verbatim>\<open>set\<close> of a bound parameter (\<^verbatim>\<open>qcodes.Parameter\<close>) is
  not among the sources. By the spec (4.1, 8) a parameter without setter is
  set-disabled, and \<^verbatim>\<open>set\<close> runs the declared validator first and calls the bound
  setter only when the value is accepted.
\<close>

definition run_command ::
  "daq_session \<Rightarrow> command \<Rightarrow> py_val \<Rightarrow> daq_call list \<Rightarrow> (error + py_val) \<times> daq_call list" where
  "run_command daq cmd v hist =
     (case cmd of
        GetterPartial node ty \<Rightarrow> getter daq node ty hist
      | SetterPartial node ty \<Rightarrow>
          (case setter daq node ty v hist of (r, hist') \<Rightarrow> (map_sum id (\<lambda>_. PNone) r, hist')))"

definition parameter_set ::
  "daq_session \<Rightarrow> parameter \<Rightarrow> py_val \<Rightarrow> daq_call list \<Rightarrow> (error + py_val) \<times> daq_call list" where
  "parameter_set daq p v hist =
     (if (case vals p of None \<Rightarrow> False | Some va \<Rightarrow> \<not> validate va v)
      then (Inl (ValidationError ''value not in the enumerated set''), hist)
      else (case set_cmd p of
              None \<Rightarrow> (Inl (NotImplementedError ''set''), hist)
            | Some cmd \<Rightarrow> run_command daq cmd v hist))"

text \<open>
  An entry is well formed for the binder when the look-ups and conversions of the loop
  body do not raise: an enumerated entry has \<^verbatim>\<open>Options\<close> and every key of them is the
  text of an integer.
\<close>

definition well_formed :: "schema_entry \<Rightarrow> bool" where
  "well_formed e =
     (Type e \<noteq> ''Integer (enumerated)'' \<or>
      (case Options e of
         None \<Rightarrow> False
       | Some opts \<Rightarrow> list_all (\<lambda>k. py_int k \<noteq> None) (map fst opts)))"

text \<open>
  The bound parameter of an entry in the words of the spec (3, 4.1): a getter iff the
  permissions include reading, a setter iff they include writing, a validator on the
  integer keys of the value labels iff the type is the enumerated one, with the
  entry's unit and description.
\<close>

definition option_keys :: "schema_entry \<Rightarrow> int list" where
  "option_keys e =
     (case Options e of None \<Rightarrow> [] | Some opts \<Rightarrow> List.map_filter py_int (map fst opts))"

definition bound_parameter :: "schema_entry \<Rightarrow> parameter" where
  "bound_parameter e =
     \<lparr>set_cmd = (if py_in ''Write'' (Properties e)
                 then Some (SetterPartial (Node e) (Type e)) else None),
      get_cmd = (if py_in ''Read'' (Properties e)
                 then Some (GetterPartial (Node e) (Type e)) else None),
      vals = (if Type e = ''Integer (enumerated)'' then Some (Enum (option_keys e)) else None),
      docstring = Description e,
      unit = Unit e\<rparr>"

text \<open>
  Registering the bound parameter of every entry of the tree in order, a later entry
  replacing an earlier one of the same derived name.
\<close>

fun register_all :: "(string \<times> schema_entry) list \<Rightarrow> registry \<Rightarrow> registry" where
  "register_all [] reg = reg"
| "register_all ((k, e) # rest) reg =
     register_all rest (reg(generate_parameter_name (Node e) \<mapsto> bound_parameter e))"

text \<open>
  Two entries for examples: an enumerated switch, readable and writable, and a
  read-only double whose path differs from the first only in case, so that both derive
  the name \<^verbatim>\<open>sigouts_0_on\<close>.
\<close>

definition sigout_on :: schema_entry where
  "sigout_on =
     \<lparr>Node = ''/DEV8001/SIGOUTS/0/ON'', Type = ''Integer (enumerated)'',
      Properties = PropsStr ''Read, Write, Setting'',
      Options = Some [(''0'', ''off''), (''1'', ''on'')],
      Description = ''Enables the signal output'', Unit = ''None''\<rparr>"

definition sigout_on_shadow :: schema_entry where
  "sigout_on_shadow =
     \<lparr>Node = ''/dev8001/sigouts/0/on'', Type = ''Double'',
      Properties = PropsStr ''Read'',
      Options = None,
      Description = ''Read-only twin'', Unit = ''V''\<rparr>"

section \<open>More string primitives\<close>

text \<open>
  \<^verbatim>\<open>s.replace(old, new)\<close>: the occurrences of \<open>old\<close> are found from the left and do not
  overlap; the text put in is not searched again. With an empty \<open>old\<close>, \<open>new\<close> goes
  before every character and at the end.
\<close>

function replace_str :: "string \<Rightarrow> string \<Rightarrow> string \<Rightarrow> string" where
  "replace_str old new s =
     (if old = [] then new @ concat (map (\<lambda>c. c # new) s)
      else if take (length old) s = old then new @ replace_str old new (drop (length old) s)
      else (case s of [] \<Rightarrow> [] | c # cs \<Rightarrow> c # replace_str old new cs))"
  by pat_completeness auto
termination
proof (relation "measure (\<lambda>(old, new, s). length s)")
  fix old new s :: string
  assume "old \<noteq> []" and "take (length old) s = old"
  then have "s \<noteq> []" by auto
  with \<open>old \<noteq> []\<close>
  show "((old, new, drop (length old) s), (old, new, s)) \<in> measure (\<lambda>(old, new, s). length s)"
    by simp
qed auto

declare replace_str.simps [simp del]

text \<open>
  \<^verbatim>\<open>template.format(*args)\<close> for templates whose replacement fields are all the
  automatic \<^verbatim>\<open>{}\<close>, as every template of the driver is. The arguments are given as the
  texts \<^verbatim>\<open>str\<close> makes of them. Each \<^verbatim>\<open>{}\<close> takes the next argument and raises
  \<^verbatim>\<open>IndexError\<close> when none is left; arguments left over are ignored; a doubled brace
  is a literal brace and any other brace a \<^verbatim>\<open>ValueError\<close>.
\<close>

fun py_format :: "string \<Rightarrow> string list \<Rightarrow> error + string" where
  "py_format [] args = Inr []"
| "py_format [c] args =
     (if c = CHR ''{'' \<or> c = CHR ''}'' then Inl (ValueError ''Single brace in format string'')
      else Inr [c])"
| "py_format (c # d # rest) args =
     (if c = CHR ''{'' \<and> d = CHR ''}'' then
        (case args of
           [] \<Rightarrow> Inl (IndexError ''Replacement index out of range'')
         | a # as \<Rightarrow> map_sum id (\<lambda>t. a @ t) (py_format rest as))
      else if (c = CHR ''{'' \<and> d = CHR ''{'') \<or> (c = CHR ''}'' \<and> d = CHR ''}'') then
        map_sum id (\<lambda>t. c # t) (py_format rest args)
      else if c = CHR ''{'' \<or> c = CHR ''}'' then
        Inl (ValueError ''Single brace in format string'')
      else map_sum id (\<lambda>t. c # t) (py_format (d # rest) args))"

text \<open>\<^verbatim>\<open>str(n)\<close> of an integer: decimal digits, with a minus sign when negative.\<close>

fun digits_of :: "nat \<Rightarrow> string" where
  "digits_of n =
     (if n < 10 then [''0123456789'' ! n]
      else digits_of (n div 10) @ [''0123456789'' ! (n mod 10)])"

declare digits_of.simps [simp del]

definition str_int :: "int \<Rightarrow> string" where
  "str_int i = (if i < 0 then CHR ''-'' # digits_of (nat (- i)) else digits_of (nat i))"

text \<open>
  \<^verbatim>\<open>textwrap.dedent(text)\<close>: lines of blanks and tabs only become empty; the margin is
  the longest common prefix of the leading blanks and tabs of the other lines; every
  line that starts with the margin loses it.
\<close>

definition is_blank :: "char \<Rightarrow> bool" where
  "is_blank c = (c = CHR '' '' \<or> c = CHR 0x09)"

fun common_prefix :: "string \<Rightarrow> string \<Rightarrow> string" where
  "common_prefix (x # xs) (y # ys) = (if x = y then x # common_prefix xs ys else [])"
| "common_prefix _ _ = []"

definition dedent :: "string \<Rightarrow> string" where
  "dedent text =
     (let lines = map (\<lambda>l. if list_all is_blank l then [] else l)
                      (split_str CHR 0x0A text);
          indents = map (takeWhile is_blank) (filter (\<lambda>l. l \<noteq> []) lines);
          margin = (case indents of [] \<Rightarrow> [] | i # is \<Rightarrow> foldl common_prefix i is)
      in join_str [CHR 0x0A]
           (map (\<lambda>l. if margin \<noteq> [] \<and> take (length margin) l = margin
                      then drop (length margin) l else l) lines))"

section \<open>Generating a sequence program\<close>

text \<open>
  \<^verbatim>\<open>
  def generate_csv_sequence_program(wave_names, channels=None):
      awg_program = textwrap.dedent("""
          HEADER
          while(true){
              playWave(WAVES);
          }
          """)
      sequence_header = '// generated by {}\n'.format(__name__)
      awg_program = awg_program.replace('HEADER', sequence_header)
      if channels is None:
          argument_string = ('"{}"' * len(wave_names)).replace('""', '", "')
          waves = argument_string.format(*wave_names)
      else:
          argument_string = ('{}, "{}"' * len(wave_names)).replace('}"{', '}", {')
          waves = argument_string.format(*[value for pair in zip(channels, wave_names) for value in pair])
      awg_program = awg_program.replace('WAVES', waves)
      return awg_program
  \<close>
  In the source the lines of the template stand 12 columns in (the \<^verbatim>\<open>playWave\<close> line
  16), and the closing quotes follow 12 blanks. \<^verbatim>\<open>__name__\<close> is the name under which
  the module was imported and is a parameter here. The double quote is written
  \<open>CHR 0x22\<close>.
\<close>

definition template :: string where
  "template =
     ''\<newline>''
     @ ''            HEADER\<newline>''
     @ ''            while(true){\<newline>''
     @ ''                playWave(WAVES);\<newline>''
     @ ''            }\<newline>''
     @ ''            ''"

definition quoted_field :: string where
  "quoted_field = CHR 0x22 # ''{}'' @ [CHR 0x22]"

definition two_quotes :: string where
  "two_quotes = [CHR 0x22, CHR 0x22]"

definition quote_comma_quote :: string where
  "quote_comma_quote = CHR 0x22 # '', '' @ [CHR 0x22]"

definition channel_field :: string where
  "channel_field = ''{}, '' @ quoted_field"

definition field_joint :: string where
  "field_joint = CHR ''}'' # CHR 0x22 # ''{''"

definition field_joint_separated :: string where
  "field_joint_separated = CHR ''}'' # CHR 0x22 # '', {''"

definition generate_csv_sequence_program ::
  "string \<Rightarrow> string list \<Rightarrow> int list option \<Rightarrow> error + string" where
  "generate_csv_sequence_program module_name wave_names channels =
     (let awg_program = dedent template
      in case py_format ''// generated by {}\<newline>'' [module_name] of
           Inl e \<Rightarrow> Inl e
         | Inr sequence_header \<Rightarrow>
     (let awg_program = replace_str ''HEADER'' sequence_header awg_program
      in case (case channels of
                 None \<Rightarrow>
                   (let argument_string =
                          replace_str two_quotes quote_comma_quote
                            (concat (replicate (length wave_names) quoted_field))
                    in py_format argument_string wave_names)
               | Some chs \<Rightarrow>
                   (let argument_string =
                          replace_str field_joint field_joint_separated
                            (concat (replicate (length wave_names) channel_field))
                    in py_format argument_string
                         (concat (map (\<lambda>(ch, w). [str_int ch, w]) (zip chs wave_names))))) of
           Inl e \<Rightarrow> Inl e
         | Inr waves \<Rightarrow> Inr (replace_str ''WAVES'' waves awg_program)))"

text \<open>
  The program text in the words of the spec (4.2, 6): a generated-by comment, then a
  \<^verbatim>\<open>while(true)\<close> block around one \<^verbatim>\<open>playWave\<close> call. Its arguments are the wave names
  in double quotes, or pairs of a channel number and a quoted name, separated by a
  comma and a blank.
\<close>

definition quoted :: "string \<Rightarrow> string" where
  "quoted w = CHR 0x22 # w @ [CHR 0x22]"

definition channel_pair :: "int \<times> string \<Rightarrow> string" where
  "channel_pair p = (case p of (ch, w) \<Rightarrow> str_int ch @ '', '' @ quoted w)"

definition program_text :: "string \<Rightarrow> string \<Rightarrow> string" where
  "program_text header_name waves =
     ''\<newline>// generated by '' @ header_name @ ''\<newline>''
     @ ''\<newline>while(true){\<newline>''
     @ ''    playWave('' @ waves @ '');\<newline>''
     @ ''}\<newline>''"

text \<open>The header line and the arguments handed to \<^verbatim>\<open>format\<close> in the channel case.\<close>

definition header_line :: "string \<Rightarrow> string" where
  "header_line name = ''// generated by '' @ name @ ''\<newline>''"

definition format_arguments :: "int list \<Rightarrow> string list \<Rightarrow> string list" where
  "format_arguments chs ws = concat (map (\<lambda>(ch, w). [str_int ch, w]) (zip chs ws))"

section \<open>Writing waveforms to a CSV file\<close>

text \<open>
  What the driver sees of the file system: which paths are directories, whether
  opening a path for writing succeeds, and the contents of the files. Only the
  contents change.
\<close>

record file_system =
  is_dir :: "string \<Rightarrow> bool"
  open_error :: "string \<Rightarrow> error option"
  files :: "string \<rightharpoonup> string"

text \<open>
  \<^verbatim>\<open>os.path.join(a, *p)\<close> with the POSIX separator: a component that starts with a slash
  restarts the path, and a slash is put between two components unless the path so far
  is empty or ends with one.
\<close>

fun path_join :: "string \<Rightarrow> string list \<Rightarrow> string" where
  "path_join path [] = path"
| "path_join path (b # bs) =
     path_join (if b \<noteq> [] \<and> hd b = CHR ''/'' then b
                else if path = [] \<or> last path = CHR ''/'' then path @ b
                else path @ ''/'' @ b) bs"

text \<open>
  \<^verbatim>\<open>zip(*waveforms)\<close>: no rows for no waveforms; otherwise one row of the next sample
  of every waveform, until one of them has no next sample.
\<close>

function zip_star :: "'a list list \<Rightarrow> 'a list list" where
  "zip_star ws = (if ws = [] \<or> [] \<in> set ws then [] else map hd ws # zip_star (map tl ws))"
  by pat_completeness auto
termination
proof (relation "measure (\<lambda>ws. length (hd ws))")
  fix ws :: "'a list list"
  assume "\<not> (ws = [] \<or> [] \<in> set ws)"
  then have "ws \<noteq> []" and "[] \<notin> set ws"
    by simp_all
  moreover from this have "hd ws \<noteq> []"
    by (cases ws) auto
  ultimately show "(map tl ws, ws) \<in> measure (\<lambda>ws. length (hd ws))"
    by (simp add: hd_map)
qed simp

declare zip_star.simps [simp del]

text \<open>
  \<^verbatim>\<open>csv.writer(f, delimiter=';')\<close> with the other defaults of the dialect: a field is
  put in double quotes (its own quotes doubled) when it holds the delimiter, a quote,
  a carriage return or a line feed; the fields of a row are joined by the delimiter
  and ended by carriage return and line feed; a row of one empty field is written as
  two quotes. Each sample is written as the text \<^verbatim>\<open>str\<close> makes of it, which is the
  parameter \<open>str_of\<close>.
\<close>

definition needs_quotes :: "string \<Rightarrow> bool" where
  "needs_quotes field = (\<exists>c \<in> set field. c \<in> set [CHR '';'', CHR 0x22, CHR 0x0D, CHR 0x0A])"

definition csv_field :: "string \<Rightarrow> string" where
  "csv_field field =
     (if needs_quotes field
      then CHR 0x22 # concat (map (\<lambda>c. if c = CHR 0x22 then [c, c] else [c]) field) @ [CHR 0x22]
      else field)"

definition csv_row :: "string list \<Rightarrow> string" where
  "csv_row cells =
     (if cells = [[]] then [CHR 0x22, CHR 0x22] else join_str '';'' (map csv_field cells))
     @ [CHR 0x0D, CHR 0x0A]"

definition writerows :: "('a \<Rightarrow> string) \<Rightarrow> 'a list list \<Rightarrow> string" where
  "writerows str_of rows = concat (map (\<lambda>row. csv_row (map str_of row)) rows)"

text \<open>
  \<^verbatim>\<open>
  def waveform_to_csv(self, wave_name, *waveforms):
      data_dir = self.awg_module.getString('awgModule/directory')
      wave_dir = os.path.join(data_dir, "awg", "waves")
      if not os.path.isdir(wave_dir):
          raise Exception("AWG module wave directory {} does not exist or is not a directory".format(wave_dir))
      csv_file = os.path.join(wave_dir, wave_name + '.csv')
      with open(csv_file, "w", newline='') as f:
          writer = csv.writer(f, delimiter=';')
          writer.writerows(zip(*waveforms))
  \<close>
\<close>

definition waveform_to_csv ::
  "('a \<Rightarrow> string) \<Rightarrow> awg_module \<Rightarrow> string \<Rightarrow> 'a list list \<Rightarrow> awg_state \<Rightarrow> file_system
     \<Rightarrow> (error + unit) \<times> awg_state \<times> file_system" where
  "waveform_to_csv str_of m wave_name waveforms s fs =
     (case awg_getString m ''awgModule/directory'' s of
        (Inl e, s1) \<Rightarrow> (Inl e, s1, fs)
      | (Inr data_dir, s1) \<Rightarrow>
          (let wave_dir = path_join data_dir [''awg'', ''waves'']
           in if \<not> is_dir fs wave_dir then
                (case py_format
                        ''AWG module wave directory {} does not exist or is not a directory''
                        [wave_dir] of
                   Inl e \<Rightarrow> (Inl e, s1, fs)
                 | Inr msg \<Rightarrow> (Inl (Exception msg), s1, fs))
              else
                (let csv_file = path_join wave_dir [wave_name @ ''.csv'']
                 in case open_error fs csv_file of
                      Some e \<Rightarrow> (Inl e, s1, fs)
                    | None \<Rightarrow>
                        (Inr (), s1,
                         fs\<lparr>files := (files fs)(csv_file \<mapsto>
                                         writerows str_of (zip_star waveforms))\<rparr>))))"

text \<open>
  The number of rows in the words of claim C10: the length of the shortest waveform
  (none for no waveform).
\<close>

fun shortest :: "'a list list \<Rightarrow> nat" where
  "shortest [] = 0"
| "shortest [w] = length w"
| "shortest (w # v # ws) = min (length w) (shortest (v # ws))"

text \<open>A module that reports a data directory, and two file systems around it.\<close>

definition labone_module :: awg_module where
  "labone_module =
     \<lparr>set_outcome = (\<lambda>k. None),
      getInt_outcome = (\<lambda>k. Inr 0),
      getString_outcome = (\<lambda>k. Inr ''/home/lab/LabOne''),
      getDouble_outcome = (\<lambda>k. Inr 1)\<rparr>"

definition bare_disk :: file_system where
  "bare_disk = \<lparr>is_dir = (\<lambda>p. p = ''/home/lab/LabOne''), open_error = (\<lambda>p. None),
                 files = Map.empty\<rparr>"

definition prepared_disk :: file_system where
  "prepared_disk =
     \<lparr>is_dir = (\<lambda>p. p \<in> set [''/home/lab/LabOne'', ''/home/lab/LabOne/awg'',
                                ''/home/lab/LabOne/awg/waves'']),
      open_error = (\<lambda>p. None), files = Map.empty\<rparr>"

section \<open>Verified properties\<close>

subsection \<open>Splitting undoes joining\<close>

lemma split_str_not_Nil: "split_str sep s \<noteq> []"
  by (induction s) (auto split: list.splits)

lemma split_str_no_sep: "sep \<notin> set w \<Longrightarrow> split_str sep w = [w]"
  by (induction w) auto

lemma split_str_append_sep:
  "sep \<notin> set w \<Longrightarrow> split_str sep (w @ sep # rest) = w # split_str sep rest"
  by (induction w) (auto split: list.splits)

lemma split_join_slash:
  assumes "\<forall>w \<in> set ws. sep \<notin> set w" and "ws \<noteq> []"
  shows "split_str sep (join_str [sep] ws) = ws"
  using assms
proof (induction ws rule: induct_list012)
  case 1
  then show ?case by simp
next
  case (2 w)
  then show ?case by (simp add: split_str_no_sep)
next
  case (3 w v ws)
  then show ?case by (simp add: split_str_append_sep)
qed

lemma lower_char_underscore: "lower_char CHR ''_'' = CHR ''_''"
  by (simp add: lower_char_def)

lemma lower_join_underscore:
  "lower_str (join_str ''_'' ws) = join_str ''_'' (map lower_str ws)"
  by (induction ws rule: induct_list012)
     (simp_all add: lower_str_def lower_char_underscore)

text \<open>
  Claim C3. A slash-delimited path is the slash-join of its segments, none of which
  contains a slash. Its derived name drops the first two segments and joins the others
  with underscores in lower case (lower-casing the joined text and lower-casing each
  segment give the same name). The path \<^verbatim>\<open>/dev1234/sigouts/0/on\<close>, whose segments are
  the empty one before the leading slash, \<^verbatim>\<open>dev1234\<close>, \<^verbatim>\<open>sigouts\<close>, \<^verbatim>\<open>0\<close> and \<^verbatim>\<open>on\<close>,
  derives \<^verbatim>\<open>sigouts_0_on\<close>.
\<close>

theorem generate_parameter_name_drops_two:
  "(\<forall>segs. segs \<noteq> [] \<and> (\<forall>w \<in> set segs. CHR ''/'' \<notin> set w) \<longrightarrow>
      generate_parameter_name (join_str ''/'' segs)
        = lower_str (join_str ''_'' (drop 2 segs))
      \<and> generate_parameter_name (join_str ''/'' segs)
        = join_str ''_'' (map lower_str (drop 2 segs)))
   \<and> generate_parameter_name ''/dev1234/sigouts/0/on'' = ''sigouts_0_on''"
proof (intro conjI allI impI)
  fix segs :: "string list"
  assume h: "segs \<noteq> [] \<and> (\<forall>w \<in> set segs. CHR ''/'' \<notin> set w)"
  then have sp: "split_str CHR ''/'' (join_str ''/'' segs) = segs"
    using split_join_slash [of segs "CHR ''/''"] by simp
  show "generate_parameter_name (join_str ''/'' segs)
          = lower_str (join_str ''_'' (drop 2 segs))"
    by (simp add: generate_parameter_name_def sp)
  then show "generate_parameter_name (join_str ''/'' segs)
          = join_str ''_'' (map lower_str (drop 2 segs))"
    by (simp add: lower_join_underscore)
next
  show "generate_parameter_name ''/dev1234/sigouts/0/on'' = ''sigouts_0_on''"
    by (simp add: generate_parameter_name_def lower_str_def lower_char_def)
qed

theorem generate_parameter_name_drops_two_witness:
  "generate_parameter_name (join_str ''/'' ['''', ''DEV8001'', ''AWGS'', ''0'', ''Enable''])
     = ''awgs_0_enable''
   \<and> generate_parameter_name ''/dev1234/sigouts/0/on'' = ''sigouts_0_on''"
proof -
  let ?segs = "['''', ''DEV8001'', ''AWGS'', ''0'', ''Enable'']"
  have h: "?segs \<noteq> [] \<and> (\<forall>w \<in> set ?segs. CHR ''/'' \<notin> set w)"
    by simp
  from generate_parameter_name_drops_two
  have "generate_parameter_name (join_str ''/'' ?segs)
          = join_str ''_'' (map lower_str (drop 2 ?segs))"
    using h by blast
  moreover have "join_str ''_'' (map lower_str (drop 2 ?segs)) = ''awgs_0_enable''"
    by (simp add: lower_str_def lower_char_def)
  moreover from generate_parameter_name_drops_two
  have "generate_parameter_name ''/dev1234/sigouts/0/on'' = ''sigouts_0_on''"
    by blast
  ultimately show ?thesis by simp
qed

subsection \<open>Sequence upload: the compiler status after the busy loop\<close>

text \<open>
  The busy loop leaves after \<open>k\<close> reads of the sentinel \<open>-1\<close> and one read of
  something else, provided the fuel allows \<open>k + 1\<close> reads.
\<close>

lemma wait_compiler_run:
  assumes "\<forall>j<k. getInt_outcome m (n_getInt s + j) = Inr (- 1)"
    and "getInt_outcome m (n_getInt s + k) = Inr v" and "v \<noteq> - 1" and "k < fuel"
  shows "wait_compiler fuel m s =
           Some (Inr (), s\<lparr>n_getInt := n_getInt s + Suc k,
                   calls := calls s
                     @ concat (replicate k [AwgGetInt ''awgModule/compiler/status'', TimeSleep])
                     @ [AwgGetInt ''awgModule/compiler/status'']\<rparr>)"
  using assms
proof (induction k arbitrary: fuel s)
  case 0
  then obtain f where "fuel = Suc f" by (cases fuel) auto
  with 0 show ?case by (simp add: awg_getInt_def)
next
  case (Suc k)
  then obtain f where f: "fuel = Suc f" by (cases fuel) auto
  let ?s1 = "time_sleep (s\<lparr>n_getInt := Suc (n_getInt s),
                 calls := calls s @ [AwgGetInt ''awgModule/compiler/status'']\<rparr>)"
  have first: "getInt_outcome m (n_getInt s) = Inr (- 1)"
    using Suc.prems(1) by (metis add.right_neutral zero_less_Suc)
  have step: "wait_compiler fuel m s = wait_compiler f m ?s1"
    by (simp add: f awg_getInt_def first)
  have a: "\<forall>j<k. getInt_outcome m (n_getInt ?s1 + j) = Inr (- 1)"
    using Suc.prems(1) by (auto simp: time_sleep_def)
  have b: "getInt_outcome m (n_getInt ?s1 + k) = Inr v"
    using Suc.prems(2) by (simp add: time_sleep_def)
  have c: "k < f" using Suc.prems(4) f by simp
  show ?case
    unfolding step Suc.IH [OF a b Suc.prems(3) c]
    by (simp add: time_sleep_def)
qed

text \<open>
  Claim C2. In every run in which the status read that follows the busy loop returns 1,
  the upload raises an exception whose message is the status string the compiler
  reports, and the run issues no read of the progress fraction: the calls made are the
  two \<^verbatim>\<open>set\<close>s, the status reads of the loop with their sleeps, the status read of
  the test and the read of the status string. The vendor calls of the run are taken
  to return (a call that raises ends the run with the vendor's own error).
\<close>

theorem upload_failure_raises_statusstring:
  assumes sets: "set_outcome m 0 = None" "set_outcome m 1 = None"
    and busy: "\<forall>j<k. getInt_outcome m j = Inr (- 1)"
    and leave: "getInt_outcome m k = Inr v" "v \<noteq> - 1"
    and failed: "getInt_outcome m (Suc k) = Inr 1"
    and message: "getString_outcome m 0 = Inr msg"
    and fuel: "k < fuel"
  shows "\<exists>s'. upload_sequence_program fuel m awg_number sequence_program awg_init
                = Some (Inl (Exception msg), s')
           \<and> calls s' =
               [AwgSet ''awgModule/index'' (PInt awg_number),
                AwgSet ''awgModule/compiler/sourcestring'' (PStr sequence_program)]
               @ concat (replicate k [AwgGetInt ''awgModule/compiler/status'', TimeSleep])
               @ [AwgGetInt ''awgModule/compiler/status'',
                  AwgGetInt ''awgModule/compiler/status'',
                  AwgGetString ''awgModule/compiler/statusstring'']
           \<and> n_getDouble s' = 0
           \<and> (\<forall>path. AwgGetDouble path \<notin> set (calls s'))"
proof -
  let ?st = "''awgModule/compiler/status''"
  let ?s2 = "\<lparr>n_set = Suc (Suc 0), n_getInt = 0, n_getString = 0, n_getDouble = 0,
               calls = [AwgSet ''awgModule/index'' (PInt awg_number),
                        AwgSet ''awgModule/compiler/sourcestring'' (PStr sequence_program)]\<rparr>"
  let ?s3 = "?s2\<lparr>n_getInt := n_getInt ?s2 + Suc k,
               calls := calls ?s2 @ concat (replicate k [AwgGetInt ?st, TimeSleep])
                          @ [AwgGetInt ?st]\<rparr>"
  have a: "\<forall>j<k. getInt_outcome m (n_getInt ?s2 + j) = Inr (- 1)"
    using busy by simp
  have b: "getInt_outcome m (n_getInt ?s2 + k) = Inr v"
    using leave by simp
  have w: "wait_compiler fuel m ?s2 = Some (Inr (), ?s3)"
    by (rule wait_compiler_run [OF a b leave(2) fuel])
  have "upload_sequence_program fuel m awg_number sequence_program awg_init
          = (case wait_compiler fuel m ?s2 of
               None \<Rightarrow> None
             | Some (Inl e, s3) \<Rightarrow> Some (Inl e, s3)
             | Some (Inr _, s3) \<Rightarrow>
                 (case awg_getInt m ?st s3 of
                    (Inl e, s4) \<Rightarrow> Some (Inl e, s4)
                  | (Inr status, s4) \<Rightarrow>
                      if status = 1 then
                        (case awg_getString m ''awgModule/compiler/statusstring'' s4 of
                           (Inl e, s5) \<Rightarrow> Some (Inl e, s5)
                         | (Inr msg, s5) \<Rightarrow> Some (Inl (Exception msg), s5))
                      else
                        (case wait_progress fuel m s4 of
                           None \<Rightarrow> None
                         | Some (Inl e, s5) \<Rightarrow> Some (Inl e, s5)
                         | Some (Inr _, s5) \<Rightarrow>
                             (case awg_getInt m ?st s5 of
                                (Inl e, s6) \<Rightarrow> Some (Inl e, s6)
                              | (Inr final, s6) \<Rightarrow> Some (Inr final, s6)))))"
    using sets by (simp add: upload_sequence_program_def awg_set_def awg_init_def)
  also have "\<dots> = Some (Inl (Exception msg),
                 ?s3\<lparr>n_getInt := Suc (n_getInt ?s3), n_getString := Suc 0,
                      calls := calls ?s3 @ [AwgGetInt ?st,
                                           AwgGetString ''awgModule/compiler/statusstring'']\<rparr>)"
    unfolding w using failed message by (simp add: awg_getInt_def awg_getString_def)
  finally show ?thesis by simp
qed

theorem upload_failure_raises_statusstring_witness:
  "\<exists>s'. upload_sequence_program 3 failing_module 0 ''while(true){}'' awg_init
           = Some (Inl (Exception ''compiler message''), s')
        \<and> n_getDouble s' = 0
        \<and> (\<forall>path. AwgGetDouble path \<notin> set (calls s'))"
proof -
  have "\<forall>j<2. getInt_outcome failing_module j = Inr (- 1)"
    by (simp add: failing_module_def)
  moreover have "getInt_outcome failing_module 2 = Inr 1" "(1::int) \<noteq> - 1"
    "getInt_outcome failing_module (Suc 2) = Inr 1"
    "getString_outcome failing_module 0 = Inr ''compiler message''"
    "set_outcome failing_module 0 = None" "set_outcome failing_module 1 = None"
    "(2::nat) < 3"
    by (simp_all add: failing_module_def)
  ultimately show ?thesis
    using upload_failure_raises_statusstring
      [of failing_module 2 1 "''compiler message''" 3 0 "''while(true){}''"]
    by blast
qed

text \<open>
  Claim C1. The docstring of \<^verbatim>\<open>upload_sequence_program\<close> promises the return value 1
  when compilation succeeded with warnings. On a compiler whose status is 1 once it
  stops reading the sentinel, the function does not return 1: it raises the exception
  carrying the status string, before any progress read.
\<close>

theorem upload_status_one_raises:
  "upload_sequence_program 3 failing_module 0 ''while(true){}'' awg_init
     = Some (Inl (Exception ''compiler message''),
             \<lparr>n_set = 2, n_getInt = 4, n_getString = 1, n_getDouble = 0,
              calls = [AwgSet ''awgModule/index'' (PInt 0),
                       AwgSet ''awgModule/compiler/sourcestring'' (PStr ''while(true){}''),
                       AwgGetInt ''awgModule/compiler/status'', TimeSleep,
                       AwgGetInt ''awgModule/compiler/status'', TimeSleep,
                       AwgGetInt ''awgModule/compiler/status'',
                       AwgGetInt ''awgModule/compiler/status'',
                       AwgGetString ''awgModule/compiler/statusstring'']\<rparr>)"
  by (simp add: upload_sequence_program_def failing_module_def awg_init_def awg_set_def
                awg_getInt_def awg_getString_def time_sleep_def eval_nat_numeral)

subsection \<open>Accessors on an unrecognised type tag\<close>

text \<open>
  Claim C7. With a type tag that is none of the recognised ones (the two integer
  kinds, double, string, vector), the getter returns \<^verbatim>\<open>None\<close> and the setter returns,
  both without raising and without adding a call to the session's log, whatever the
  session, the path, the value and the calls made before.
\<close>

theorem unknown_type_no_call:
  assumes "param_type \<notin> {''Integer (64 bit)'', ''Integer (enumerated)'', ''Double'',
                          ''String'', ''ZIVectorData''}"
  shows "getter daq name param_type hist = (Inr PNone, hist)
       \<and> setter daq name param_type v hist = (Inr (), hist)"
  using assms by (simp add: getter_def setter_def)

theorem unknown_type_no_call_witness:
  "getter refusing_session ''/dev8001/stats/0'' ''Integer (32 bit)'' [] = (Inr PNone, [])
 \<and> setter refusing_session ''/dev8001/stats/0'' ''Integer (32 bit)'' (PInt 7) []
     = (Inr (), [])"
proof -
  have "''Integer (32 bit)'' \<notin> {''Integer (64 bit)'', ''Integer (enumerated)'', ''Double'',
                                 ''String'', ''ZIVectorData''}"
    by simp
  then show ?thesis
    by (rule unknown_type_no_call)
qed

subsection \<open>The parameter binder\<close>

text \<open>
  On well-formed entries the loop body does not raise and registers the bound parameter
  of the entry; the whole loop registers them in order.
\<close>

lemma int_keys_all_parse:
  "list_all (\<lambda>k. py_int k \<noteq> None) ks \<Longrightarrow> int_keys ks = Inr (List.map_filter py_int ks)"
  by (induction ks) (auto simp: List.map_filter_simps)

lemma enum_options_well_formed:
  "well_formed e \<Longrightarrow> enum_options e = Inr (vals (bound_parameter e))"
  by (auto simp: well_formed_def enum_options_def bound_parameter_def option_keys_def
                 int_keys_all_parse split: option.splits)

lemma bind_entry_well_formed:
  "well_formed e \<Longrightarrow>
   bind_entry e reg = Inr (reg(generate_parameter_name (Node e) \<mapsto> bound_parameter e))"
  by (simp add: bind_entry_def enum_options_well_formed add_parameter_def Let_def)
     (simp add: bound_parameter_def)

lemma create_parameters_well_formed:
  "list_all well_formed (map snd ps) \<Longrightarrow>
   create_parameters_from_node_tree ps reg = (None, register_all ps reg)"
  by (induction ps arbitrary: reg) (auto simp: bind_entry_well_formed)

lemma register_all_append:
  "register_all (ps @ qs) reg = register_all qs (register_all ps reg)"
  by (induction ps arbitrary: reg) auto

lemma register_all_other:
  "\<forall>(k, e) \<in> set ps. generate_parameter_name (Node e) \<noteq> n \<Longrightarrow> register_all ps reg n = reg n"
  by (induction ps arbitrary: reg) auto

lemma register_all_origin:
  "register_all ps reg n = Some p \<Longrightarrow>
   reg n = Some p \<or> (\<exists>(k, e) \<in> set ps. n = generate_parameter_name (Node e) \<and> p = bound_parameter e)"
proof (induction ps arbitrary: reg)
  case Nil
  then show ?case by simp
next
  case (Cons a ps)
  obtain k e where a: "a = (k, e)" by (cases a)
  from Cons.prems a
  have "register_all ps (reg(generate_parameter_name (Node e) \<mapsto> bound_parameter e)) n = Some p"
    by simp
  from Cons.IH [OF this] show ?case
    using a by (auto split: if_splits)
qed

lemma py_int_0: "py_int ''0'' = Some 0"
  by (simp add: py_int_def strip_def is_space_def valid_digits_def digit_val_def digits_val_def)

lemma py_int_1: "py_int ''1'' = Some 1"
  by (simp add: py_int_def strip_def is_space_def valid_digits_def digit_val_def digits_val_def)

lemma wf_sigout_on: "well_formed sigout_on"
  by (simp add: well_formed_def sigout_on_def py_int_0 py_int_1)

lemma wf_shadow: "well_formed sigout_on_shadow"
  by (simp add: well_formed_def sigout_on_shadow_def)

lemma name_sigout_on: "generate_parameter_name (Node sigout_on) = ''sigouts_0_on''"
  by (simp add: sigout_on_def generate_parameter_name_def lower_str_def lower_char_def)

lemma name_shadow: "generate_parameter_name (Node sigout_on_shadow) = ''sigouts_0_on''"
  by (simp add: sigout_on_shadow_def generate_parameter_name_def lower_str_def lower_char_def)

lemma int_keys_some_fail:
  "\<not> list_all (\<lambda>k. py_int k \<noteq> None) ks \<Longrightarrow> \<exists>err. int_keys ks = Inl err"
  by (induction ks) (auto split: option.splits sum.splits)

lemma bind_entry_ill_formed: "\<not> well_formed e \<Longrightarrow> \<exists>err. bind_entry e reg = Inl err"
proof -
  assume "\<not> well_formed e"
  then have "\<exists>err. enum_options e = Inl err"
    using int_keys_some_fail
    by (fastforce simp: well_formed_def enum_options_def split: option.splits)
  then show ?thesis
    by (auto simp: bind_entry_def Let_def)
qed

lemma register_all_last:
  assumes "\<forall>(k2, e2) \<in> set post.
             generate_parameter_name (Node e2) \<noteq> generate_parameter_name (Node e)"
  shows "register_all (pre @ (k, e) # post) reg (generate_parameter_name (Node e))
           = Some (bound_parameter e)"
proof -
  have "register_all (pre @ (k, e) # post) reg (generate_parameter_name (Node e))
          = register_all post (register_all (pre @ [(k, e)]) reg)
              (generate_parameter_name (Node e))"
    using register_all_append [of "pre @ [(k, e)]" post reg] by simp
  also have "\<dots> = register_all (pre @ [(k, e)]) reg (generate_parameter_name (Node e))"
    by (rule register_all_other [OF assms])
  also have "\<dots> = Some (bound_parameter e)"
    by (simp add: register_all_append)
  finally show ?thesis .
qed

text \<open>
  Claim C4. For every entry the binder processes, the registered parameter has a getter
  exactly when \<^verbatim>\<open>'Read'\<close> is in the entry's properties and a setter exactly when
  \<^verbatim>\<open>'Write'\<close> is; a getter or setter that is bound is the closure on the entry's path
  and type, and otherwise the command is \<^verbatim>\<open>None\<close>. This holds for one run of the
  loop body on any registry. For the whole loop on a well-formed tree: the loop
  completes, every entry that no later entry shadows by deriving the same name is
  registered under its name with exactly these commands, and every parameter the loop
  leaves in a registry that was empty before stems from an entry of the tree in this
  way. The entries are the well-formed ones, which are exactly those on which the loop
  body does not raise (on an enumerated entry without usable options it raises before
  it registers anything).
\<close>

theorem binder_accessors_follow_permissions:
  "(well_formed e \<longrightarrow>
      (\<exists>p. bind_entry e reg = Inr (reg(generate_parameter_name (Node e) \<mapsto> p))
         \<and> (get_cmd p \<noteq> None \<longleftrightarrow> py_in ''Read'' (Properties e))
         \<and> (set_cmd p \<noteq> None \<longleftrightarrow> py_in ''Write'' (Properties e))
         \<and> (py_in ''Read'' (Properties e) \<longrightarrow>
              get_cmd p = Some (GetterPartial (Node e) (Type e)))
         \<and> (py_in ''Write'' (Properties e) \<longrightarrow>
              set_cmd p = Some (SetterPartial (Node e) (Type e)))))
   \<and> (list_all well_formed (map snd ps) \<longrightarrow>
        fst (create_parameters_from_node_tree ps Map.empty) = None
        \<and> (\<forall>n p. snd (create_parameters_from_node_tree ps Map.empty) n = Some p \<longrightarrow>
              (\<exists>(k, e') \<in> set ps. n = generate_parameter_name (Node e')
                 \<and> (get_cmd p \<noteq> None \<longleftrightarrow> py_in ''Read'' (Properties e'))
                 \<and> (set_cmd p \<noteq> None \<longleftrightarrow> py_in ''Write'' (Properties e')))))
   \<and> ((\<exists>reg'. bind_entry e reg = Inr reg') \<longleftrightarrow> well_formed e)
   \<and> (list_all well_formed (map snd (pre @ (k, e) # post))
        \<and> (\<forall>(k2, e2) \<in> set post.
               generate_parameter_name (Node e2) \<noteq> generate_parameter_name (Node e)) \<longrightarrow>
        (\<exists>reg' p. create_parameters_from_node_tree (pre @ (k, e) # post) reg = (None, reg')
           \<and> reg' (generate_parameter_name (Node e)) = Some p
           \<and> get_cmd p = (if py_in ''Read'' (Properties e)
                            then Some (GetterPartial (Node e) (Type e)) else None)
           \<and> set_cmd p = (if py_in ''Write'' (Properties e)
                            then Some (SetterPartial (Node e) (Type e)) else None)))"
proof (intro conjI impI allI)
  assume wf: "well_formed e"
  show "\<exists>p. bind_entry e reg = Inr (reg(generate_parameter_name (Node e) \<mapsto> p))
         \<and> (get_cmd p \<noteq> None \<longleftrightarrow> py_in ''Read'' (Properties e))
         \<and> (set_cmd p \<noteq> None \<longleftrightarrow> py_in ''Write'' (Properties e))
         \<and> (py_in ''Read'' (Properties e) \<longrightarrow>
              get_cmd p = Some (GetterPartial (Node e) (Type e)))
         \<and> (py_in ''Write'' (Properties e) \<longrightarrow>
              set_cmd p = Some (SetterPartial (Node e) (Type e)))"
  proof (intro exI [of _ "bound_parameter e"] conjI)
    show "bind_entry e reg
            = Inr (reg(generate_parameter_name (Node e) \<mapsto> bound_parameter e))"
      by (rule bind_entry_well_formed [OF wf])
  qed (simp_all add: bound_parameter_def)
next
  assume "list_all well_formed (map snd ps)"
  then show "fst (create_parameters_from_node_tree ps Map.empty) = None"
    by (simp add: create_parameters_well_formed)
next
  fix n p
  assume wf: "list_all well_formed (map snd ps)"
    and reg: "snd (create_parameters_from_node_tree ps Map.empty) n = Some p"
  from wf reg have "register_all ps Map.empty n = Some p"
    by (simp add: create_parameters_well_formed)
  from register_all_origin [OF this]
  obtain k e' where "(k, e') \<in> set ps" "n = generate_parameter_name (Node e')"
      "p = bound_parameter e'"
    by auto
  then show "\<exists>(k, e') \<in> set ps. n = generate_parameter_name (Node e')
                 \<and> (get_cmd p \<noteq> None \<longleftrightarrow> py_in ''Read'' (Properties e'))
                 \<and> (set_cmd p \<noteq> None \<longleftrightarrow> py_in ''Write'' (Properties e'))"
    by (auto simp: bound_parameter_def intro!: bexI [of _ "(k, e')"])
next
  show "(\<exists>reg'. bind_entry e reg = Inr reg') \<longleftrightarrow> well_formed e"
    using bind_entry_well_formed [of e reg] bind_entry_ill_formed [of e reg]
    by (cases "well_formed e") auto
next
  assume h: "list_all well_formed (map snd (pre @ (k, e) # post))
        \<and> (\<forall>(k2, e2) \<in> set post.
               generate_parameter_name (Node e2) \<noteq> generate_parameter_name (Node e))"
  then have run: "create_parameters_from_node_tree (pre @ (k, e) # post) reg
                    = (None, register_all (pre @ (k, e) # post) reg)"
    by (intro create_parameters_well_formed) simp
  from h have "\<forall>(k2, e2) \<in> set post.
               generate_parameter_name (Node e2) \<noteq> generate_parameter_name (Node e)"
    by simp
  then have bound: "register_all (pre @ (k, e) # post) reg (generate_parameter_name (Node e))
                      = Some (bound_parameter e)"
    by (rule register_all_last)
  show "\<exists>reg' p. create_parameters_from_node_tree (pre @ (k, e) # post) reg = (None, reg')
           \<and> reg' (generate_parameter_name (Node e)) = Some p
           \<and> get_cmd p = (if py_in ''Read'' (Properties e)
                            then Some (GetterPartial (Node e) (Type e)) else None)
           \<and> set_cmd p = (if py_in ''Write'' (Properties e)
                            then Some (SetterPartial (Node e) (Type e)) else None)"
    using run bound by (simp add: bound_parameter_def)
qed

theorem binder_accessors_follow_permissions_witness:
  "(\<exists>p. bind_entry sigout_on_shadow Map.empty = Inr [''sigouts_0_on'' \<mapsto> p]
      \<and> get_cmd p = Some (GetterPartial ''/dev8001/sigouts/0/on'' ''Double'')
      \<and> set_cmd p = None)
   \<and> (\<exists>reg' p. create_parameters_from_node_tree [(''a'', sigout_on)] Map.empty = (None, reg')
         \<and> reg' ''sigouts_0_on'' = Some p
         \<and> get_cmd p = Some (GetterPartial ''/DEV8001/SIGOUTS/0/ON'' ''Integer (enumerated)'')
         \<and> set_cmd p = Some (SetterPartial ''/DEV8001/SIGOUTS/0/ON'' ''Integer (enumerated)''))"
proof -
  have r: "py_in ''Read'' (Properties sigout_on_shadow)"
    by (simp add: sigout_on_shadow_def)
  have w: "\<not> py_in ''Write'' (Properties sigout_on_shadow)"
    by (simp add: sigout_on_shadow_def)
  have wfl: "list_all well_formed (map snd ([] @ (''a'', sigout_on) # []))
        \<and> (\<forall>(k2, e2) \<in> set [].
               generate_parameter_name (Node e2) \<noteq> generate_parameter_name (Node sigout_on))"
    by (simp add: wf_sigout_on)
  note step = binder_accessors_follow_permissions
                [of sigout_on_shadow Map.empty "[]" "[]" "''a''" "[]", THEN conjunct1]
  note loop = binder_accessors_follow_permissions
                [of sigout_on Map.empty "[]" "[]" "''a''" "[]",
                 THEN conjunct2, THEN conjunct2, THEN conjunct2]
  from step wf_shadow
  obtain p where p: "bind_entry sigout_on_shadow Map.empty
                       = Inr [generate_parameter_name (Node sigout_on_shadow) \<mapsto> p]"
      "set_cmd p \<noteq> None \<longleftrightarrow> py_in ''Write'' (Properties sigout_on_shadow)"
      "py_in ''Read'' (Properties sigout_on_shadow) \<longrightarrow>
         get_cmd p = Some (GetterPartial (Node sigout_on_shadow) (Type sigout_on_shadow))"
    by blast
  from p r w have "bind_entry sigout_on_shadow Map.empty = Inr [''sigouts_0_on'' \<mapsto> p]
      \<and> get_cmd p = Some (GetterPartial ''/dev8001/sigouts/0/on'' ''Double'')
      \<and> set_cmd p = None"
    by (simp add: name_shadow) (simp add: sigout_on_shadow_def)
  then have first: "\<exists>p. bind_entry sigout_on_shadow Map.empty = Inr [''sigouts_0_on'' \<mapsto> p]
      \<and> get_cmd p = Some (GetterPartial ''/dev8001/sigouts/0/on'' ''Double'')
      \<and> set_cmd p = None"
    by blast
  from loop wfl
  obtain reg' q where q:
      "create_parameters_from_node_tree ([] @ (''a'', sigout_on) # []) Map.empty = (None, reg')"
      "reg' (generate_parameter_name (Node sigout_on)) = Some q"
      "get_cmd q = (if py_in ''Read'' (Properties sigout_on)
                    then Some (GetterPartial (Node sigout_on) (Type sigout_on)) else None)"
      "set_cmd q = (if py_in ''Write'' (Properties sigout_on)
                    then Some (SetterPartial (Node sigout_on) (Type sigout_on)) else None)"
    by blast
  have rw: "py_in ''Read'' (Properties sigout_on)" "py_in ''Write'' (Properties sigout_on)"
    by (simp_all add: sigout_on_def)
  from q rw have
    "create_parameters_from_node_tree [(''a'', sigout_on)] Map.empty = (None, reg')
         \<and> reg' ''sigouts_0_on'' = Some q
         \<and> get_cmd q = Some (GetterPartial ''/DEV8001/SIGOUTS/0/ON'' ''Integer (enumerated)'')
         \<and> set_cmd q = Some (SetterPartial ''/DEV8001/SIGOUTS/0/ON'' ''Integer (enumerated)'')"
    by (simp add: name_sigout_on) (simp add: sigout_on_def)
  then have second:
    "\<exists>reg' p. create_parameters_from_node_tree [(''a'', sigout_on)] Map.empty = (None, reg')
         \<and> reg' ''sigouts_0_on'' = Some p
         \<and> get_cmd p = Some (GetterPartial ''/DEV8001/SIGOUTS/0/ON'' ''Integer (enumerated)'')
         \<and> set_cmd p = Some (SetterPartial ''/DEV8001/SIGOUTS/0/ON'' ''Integer (enumerated)'')"
    by blast
  from first second show ?thesis by (rule conjI)
qed

lemma int_keys_denote: "map py_int ks = map Some ns \<Longrightarrow> int_keys ks = Inr ns"
  by (induction ks arbitrary: ns) auto

lemma validate_Enum_iff: "validate (Enum ns) v \<longleftrightarrow> (\<exists>n \<in> set ns. v = PInt n)"
  by (cases v) auto

text \<open>
  Claim C5. For an entry of the enumerated type whose option keys denote the integers
  \<open>ns\<close>, the binder attaches the validator built from exactly \<open>ns\<close>, which accepts a
  value iff it is one of these integers; for every other type it attaches none.
  Setting such a parameter to a value outside \<open>ns\<close> fails with a validation error and
  leaves the session's call log as it was, so no write reaches the session, whereas
  setting a writable one to a value in \<open>ns\<close> adds the \<^verbatim>\<open>setInt\<close> call on the entry's
  path. The validator and the order of validation and write are those of the spec.
\<close>

theorem enum_validator_guards_writes:
  "(Type e = ''Integer (enumerated)'' \<and> Options e = Some opts
      \<and> map py_int (map fst opts) = map Some ns \<longrightarrow>
      (\<exists>p. bind_entry e reg = Inr (reg(generate_parameter_name (Node e) \<mapsto> p))
         \<and> vals p = Some (Enum ns)
         \<and> (\<forall>v. validate (Enum ns) v \<longleftrightarrow> (\<exists>n \<in> set ns. v = PInt n))
         \<and> (\<forall>v daq hist. (\<forall>n \<in> set ns. v \<noteq> PInt n) \<longrightarrow>
               (\<exists>msg. parameter_set daq p v hist = (Inl (ValidationError msg), hist)))
         \<and> (\<forall>n daq hist. n \<in> set ns \<and> py_in ''Write'' (Properties e) \<longrightarrow>
               snd (parameter_set daq p (PInt n) hist) = hist @ [SetInt (Node e) (PInt n)])))
   \<and> (Type e \<noteq> ''Integer (enumerated)'' \<longrightarrow>
        (\<exists>p. bind_entry e reg = Inr (reg(generate_parameter_name (Node e) \<mapsto> p))
           \<and> vals p = None))"
proof (intro conjI impI)
  assume h: "Type e = ''Integer (enumerated)'' \<and> Options e = Some opts
      \<and> map py_int (map fst opts) = map Some ns"
  let ?p = "\<lparr>set_cmd = (if py_in ''Write'' (Properties e)
                       then Some (SetterPartial (Node e) (Type e)) else None),
             get_cmd = (if py_in ''Read'' (Properties e)
                       then Some (GetterPartial (Node e) (Type e)) else None),
             vals = Some (Enum ns), docstring = Description e, unit = Unit e\<rparr>"
  have eo: "enum_options e = Inr (Some (Enum ns))"
    using h by (simp add: enum_options_def int_keys_denote)
  have b: "bind_entry e reg = Inr (reg(generate_parameter_name (Node e) \<mapsto> ?p))"
    by (simp add: bind_entry_def eo add_parameter_def Let_def)
  have rej: "\<forall>v daq hist. (\<forall>n \<in> set ns. v \<noteq> PInt n) \<longrightarrow>
               (\<exists>msg. parameter_set daq ?p v hist = (Inl (ValidationError msg), hist))"
    by (simp add: parameter_set_def validate_Enum_iff)
  have acc: "\<forall>n daq hist. n \<in> set ns \<and> py_in ''Write'' (Properties e) \<longrightarrow>
               snd (parameter_set daq ?p (PInt n) hist) = hist @ [SetInt (Node e) (PInt n)]"
    using h by (simp add: parameter_set_def run_command_def setter_def)
  show "\<exists>p. bind_entry e reg = Inr (reg(generate_parameter_name (Node e) \<mapsto> p))
         \<and> vals p = Some (Enum ns)
         \<and> (\<forall>v. validate (Enum ns) v \<longleftrightarrow> (\<exists>n \<in> set ns. v = PInt n))
         \<and> (\<forall>v daq hist. (\<forall>n \<in> set ns. v \<noteq> PInt n) \<longrightarrow>
               (\<exists>msg. parameter_set daq p v hist = (Inl (ValidationError msg), hist)))
         \<and> (\<forall>n daq hist. n \<in> set ns \<and> py_in ''Write'' (Properties e) \<longrightarrow>
               snd (parameter_set daq p (PInt n) hist) = hist @ [SetInt (Node e) (PInt n)])"
    using b rej acc validate_Enum_iff by (intro exI [of _ ?p]) simp
next
  assume h: "Type e \<noteq> ''Integer (enumerated)''"
  then show "\<exists>p. bind_entry e reg = Inr (reg(generate_parameter_name (Node e) \<mapsto> p))
           \<and> vals p = None"
    by (intro exI [of _ "\<lparr>set_cmd = (if py_in ''Write'' (Properties e)
                                    then Some (SetterPartial (Node e) (Type e)) else None),
                          get_cmd = (if py_in ''Read'' (Properties e)
                                    then Some (GetterPartial (Node e) (Type e)) else None),
                          vals = None, docstring = Description e, unit = Unit e\<rparr>"])
       (simp add: bind_entry_def enum_options_def add_parameter_def Let_def)
qed

theorem enum_validator_guards_writes_witness:
  "(\<exists>p. bind_entry sigout_on Map.empty = Inr [''sigouts_0_on'' \<mapsto> p]
      \<and> vals p = Some (Enum [0, 1])
      \<and> (\<exists>msg. parameter_set refusing_session p (PInt 2) []
                  = (Inl (ValidationError msg), []))
      \<and> snd (parameter_set refusing_session p (PInt 1) [])
          = [SetInt ''/DEV8001/SIGOUTS/0/ON'' (PInt 1)])
   \<and> (\<exists>p. bind_entry sigout_on_shadow Map.empty = Inr [''sigouts_0_on'' \<mapsto> p]
         \<and> vals p = None)"
proof -
  have a: "Type sigout_on = ''Integer (enumerated)''
        \<and> Options sigout_on = Some [(''0'', ''off''), (''1'', ''on'')]
        \<and> map py_int (map fst [(''0'', ''off''), (''1'', ''on'')]) = map Some [0, 1]"
    by (simp add: sigout_on_def py_int_0 py_int_1)
  have out: "\<forall>n \<in> set [0, 1]. PInt 2 \<noteq> PInt n"
    by simp
  have inside: "1 \<in> set [0, 1 :: int] \<and> py_in ''Write'' (Properties sigout_on)"
    by (simp add: sigout_on_def)
  from enum_validator_guards_writes
         [of sigout_on "[(''0'', ''off''), (''1'', ''on'')]" "[0, 1]" Map.empty] a
  obtain p where p: "bind_entry sigout_on Map.empty
                       = Inr [generate_parameter_name (Node sigout_on) \<mapsto> p]"
      "vals p = Some (Enum [0, 1])"
      "\<forall>v daq hist. (\<forall>n \<in> set [0, 1]. v \<noteq> PInt n) \<longrightarrow>
               (\<exists>msg. parameter_set daq p v hist = (Inl (ValidationError msg), hist))"
      "\<forall>n daq hist. n \<in> set [0, 1] \<and> py_in ''Write'' (Properties sigout_on) \<longrightarrow>
               snd (parameter_set daq p (PInt n) hist) = hist @ [SetInt (Node sigout_on) (PInt n)]"
    by blast
  from p(3) out
  have refused: "\<exists>msg. parameter_set refusing_session p (PInt 2) []
                         = (Inl (ValidationError msg), [])"
    by blast
  from p(4) inside
  have "snd (parameter_set refusing_session p (PInt 1) []) = [] @ [SetInt (Node sigout_on) (PInt 1)]"
    by blast
  then have written: "snd (parameter_set refusing_session p (PInt 1) [])
                        = [SetInt ''/DEV8001/SIGOUTS/0/ON'' (PInt 1)]"
    by (simp add: sigout_on_def)
  from p(1) have bound: "bind_entry sigout_on Map.empty = Inr [''sigouts_0_on'' \<mapsto> p]"
    by (simp add: name_sigout_on)
  from bound p(2) refused written
  have first: "\<exists>p. bind_entry sigout_on Map.empty = Inr [''sigouts_0_on'' \<mapsto> p]
      \<and> vals p = Some (Enum [0, 1])
      \<and> (\<exists>msg. parameter_set refusing_session p (PInt 2) []
                  = (Inl (ValidationError msg), []))
      \<and> snd (parameter_set refusing_session p (PInt 1) [])
          = [SetInt ''/DEV8001/SIGOUTS/0/ON'' (PInt 1)]"
    by blast
  have b: "Type sigout_on_shadow \<noteq> ''Integer (enumerated)''"
    by (simp add: sigout_on_shadow_def)
  from enum_validator_guards_writes [of sigout_on_shadow _ _ Map.empty] b
  have "\<exists>p. bind_entry sigout_on_shadow Map.empty
               = Inr [generate_parameter_name (Node sigout_on_shadow) \<mapsto> p]
           \<and> vals p = None"
    by blast
  then have second: "\<exists>p. bind_entry sigout_on_shadow Map.empty = Inr [''sigouts_0_on'' \<mapsto> p]
         \<and> vals p = None"
    by (simp add: name_shadow)
  from first second show ?thesis by (rule conjI)
qed

text \<open>
  Claim C8. When two entries of a well-formed tree derive the same name and no entry
  after the second derives it again, the loop completes without error and the name is
  bound to the parameter built from the second entry: the earlier binding is replaced
  without notice. Registration is that of the spec.
\<close>

theorem colliding_names_last_wins:
  assumes wf: "list_all well_formed (map snd ps)"
    and shape: "ps = pre @ (k1, e1) # mid @ (k2, e2) # post"
    and same: "generate_parameter_name (Node e1) = generate_parameter_name (Node e2)"
    and last: "\<forall>(k, e) \<in> set post. generate_parameter_name (Node e) \<noteq> generate_parameter_name (Node e2)"
  shows "\<exists>reg'. create_parameters_from_node_tree ps reg = (None, reg')
           \<and> reg' (generate_parameter_name (Node e1)) = Some (bound_parameter e2)"
proof -
  let ?n = "generate_parameter_name (Node e2)"
  have "register_all ps reg ?n
          = register_all post (register_all (pre @ (k1, e1) # mid @ [(k2, e2)]) reg) ?n"
    using shape register_all_append [of "pre @ (k1, e1) # mid @ [(k2, e2)]" post reg]
    by simp
  also have "\<dots> = register_all (pre @ (k1, e1) # mid @ [(k2, e2)]) reg ?n"
    by (rule register_all_other [OF last])
  also have "\<dots> = Some (bound_parameter e2)"
    using register_all_append [of "pre @ (k1, e1) # mid" "[(k2, e2)]" reg] by simp
  finally show ?thesis
    using wf same by (simp add: create_parameters_well_formed)
qed

theorem colliding_names_last_wins_witness:
  "\<exists>reg'. create_parameters_from_node_tree
             [(''a'', sigout_on), (''b'', sigout_on_shadow)] Map.empty = (None, reg')
         \<and> reg' ''sigouts_0_on''
             = Some \<lparr>set_cmd = None,
                     get_cmd = Some (GetterPartial ''/dev8001/sigouts/0/on'' ''Double''),
                     vals = None, docstring = ''Read-only twin'', unit = ''V''\<rparr>"
proof -
  let ?ps = "[(''a'', sigout_on), (''b'', sigout_on_shadow)]"
  have wf: "list_all well_formed (map snd ?ps)"
    by (simp add: wf_sigout_on wf_shadow)
  have shape: "?ps = [] @ (''a'', sigout_on) # [] @ (''b'', sigout_on_shadow) # []"
    by simp
  have same: "generate_parameter_name (Node sigout_on)
                = generate_parameter_name (Node sigout_on_shadow)"
    by (simp add: name_sigout_on name_shadow)
  have last: "\<forall>(k, e) \<in> set []. generate_parameter_name (Node e)
                \<noteq> generate_parameter_name (Node sigout_on_shadow)"
    by simp
  from colliding_names_last_wins [OF wf shape same last, of Map.empty]
  show ?thesis
    by (simp add: name_sigout_on) (simp add: bound_parameter_def sigout_on_shadow_def)
qed

subsection \<open>Replacing and formatting\<close>

lemma digits_of_small: "n < 10 \<Longrightarrow> digits_of n = [''0123456789'' ! n]"
  by (subst digits_of.simps) simp

lemma digits_of_large:
  "10 \<le> n \<Longrightarrow> digits_of n = digits_of (n div 10) @ [''0123456789'' ! (n mod 10)]"
  by (subst digits_of.simps) simp

lemma dedent_template:
  "dedent template
     = ''\<newline>HEADER\<newline>while(true){\<newline>    playWave(WAVES);\<newline>}\<newline>''"
  by (simp add: dedent_def template_def is_blank_def Let_def)

lemma replace_str_Nil: "old \<noteq> [] \<Longrightarrow> replace_str old new [] = []"
  by (simp add: replace_str.simps)

lemma replace_str_skip:
  "old \<noteq> [] \<Longrightarrow> c \<noteq> hd old \<Longrightarrow> replace_str old new (c # s) = c # replace_str old new s"
  by (subst replace_str.simps) (cases old; auto)

lemma replace_str_nomatch:
  "old \<noteq> [] \<Longrightarrow> take (length old) (c # s) \<noteq> old \<Longrightarrow>
   replace_str old new (c # s) = c # replace_str old new s"
  by (subst replace_str.simps) simp

lemma replace_str_hit:
  "old \<noteq> [] \<Longrightarrow> take (length old) s = old \<Longrightarrow>
   replace_str old new s = new @ replace_str old new (drop (length old) s)"
  by (subst replace_str.simps) simp

lemma replace_str_match:
  "old \<noteq> [] \<Longrightarrow> replace_str old new (old @ s) = new @ replace_str old new s"
  by (subst replace_str.simps) simp

lemma take_whole_length: "take (length old) u = old \<Longrightarrow> length old \<le> length u"
proof -
  assume "take (length old) u = old"
  then have "length (take (length old) u) = length old" by simp
  then show ?thesis by simp
qed

lemma take_eq_append_barrier:
  assumes "b \<notin> set old"
  shows "take (length old) (u @ b # s) = old \<longleftrightarrow> take (length old) u = old"
proof
  assume h: "take (length old) (u @ b # s) = old"
  show "take (length old) u = old"
  proof (cases "length old \<le> length u")
    case True
    with h show ?thesis by simp
  next
    case False
    then have "length u < length old" by simp
    then have "old ! length u = (take (length old) (u @ b # s)) ! length u"
      using h by simp
    also have "\<dots> = b" using \<open>length u < length old\<close> by (simp add: nth_append)
    finally have "b \<in> set old"
      using \<open>length u < length old\<close> by (metis nth_mem)
    with assms show ?thesis by simp
  qed
next
  assume h: "take (length old) u = old"
  then have "length old \<le> length u"
    by (rule take_whole_length)
  with h show "take (length old) (u @ b # s) = old" by simp
qed

lemma replace_str_barrier:
  assumes "old \<noteq> []" and "b \<notin> set old"
  shows "replace_str old new (u @ b # s) = replace_str old new u @ b # replace_str old new s"
proof (induction u rule: length_induct)
  case (1 u)
  show ?case
  proof (cases "take (length old) u = old")
    case True
    then have le: "length old \<le> length u"
      by (rule take_whole_length)
    have m: "take (length old) (u @ b # s) = old"
      by (subst take_eq_append_barrier [OF assms(2)]) (rule True)
    have "0 < length old" using assms(1) by simp
    with le have "length u - length old < length u"
      by arith
    then have shorter: "length (drop (length old) u) < length u"
      by simp
    have whole: "replace_str old new (u @ b # s)
            = new @ replace_str old new (drop (length old) u @ b # s)"
      using m le assms(1) by (subst replace_str.simps) simp
    have rest: "replace_str old new (drop (length old) u @ b # s)
            = replace_str old new (drop (length old) u) @ b # replace_str old new s"
      using 1 shorter by simp
    have left: "replace_str old new u = new @ replace_str old new (drop (length old) u)"
      using True assms(1) by (subst replace_str.simps) simp
    show ?thesis by (simp add: whole rest left)
  next
    case False
    have nm: "take (length old) (u @ b # s) \<noteq> old"
      by (subst take_eq_append_barrier [OF assms(2)]) (rule False)
    show ?thesis
    proof (cases u)
      case Nil
      have "replace_str old new (b # s) = b # replace_str old new s"
        using assms by (intro replace_str_skip) (auto simp: hd_in_set)
      with Nil assms(1) show ?thesis by (simp add: replace_str_Nil)
    next
      case (Cons c cs)
      have whole: "replace_str old new (u @ b # s) = c # replace_str old new (cs @ b # s)"
        using nm assms(1) Cons by (subst replace_str.simps) simp
      have rest: "replace_str old new (cs @ b # s)
                    = replace_str old new cs @ b # replace_str old new s"
        using 1 Cons by simp
      have left: "replace_str old new u = c # replace_str old new cs"
        using False assms(1) Cons by (subst replace_str.simps) simp
      show ?thesis by (simp add: whole rest left)
    qed
  qed
qed

lemma py_format_plain:
  "c \<noteq> CHR ''{'' \<Longrightarrow> c \<noteq> CHR ''}'' \<Longrightarrow>
   py_format (c # t) args = map_sum id (\<lambda>r. c # r) (py_format t args)"
  by (cases t) auto

lemma py_format_field:
  "py_format (CHR ''{'' # CHR ''}'' # t) (a # as) = map_sum id (\<lambda>r. a @ r) (py_format t as)"
  by simp

lemma py_format_field_empty:
  "py_format (CHR ''{'' # CHR ''}'' # t) [] = Inl (IndexError ''Replacement index out of range'')"
  by simp

lemmas replace_str_eval = replace_str_hit replace_str_nomatch replace_str_Nil

lemma quoted_tail:
  "replace_str two_quotes quote_comma_quote (''{}'' @ CHR 0x22 # concat (replicate n quoted_field))
     = ''{}'' @ CHR 0x22 # concat (replicate n ('', '' @ quoted_field))"
  unfolding two_quotes_def quote_comma_quote_def quoted_field_def
  by (induction n) (simp_all add: replace_str_eval)

lemma argument_string_names:
  "replace_str two_quotes quote_comma_quote (quoted_field @ concat (replicate n quoted_field))
     = quoted_field @ concat (replicate n ('', '' @ quoted_field))"
  using quoted_tail [of n]
  unfolding two_quotes_def quote_comma_quote_def quoted_field_def
  by (simp add: replace_str_nomatch)

lemma format_more_names:
  "py_format (concat (replicate (length ws) ('', '' @ quoted_field))) ws
     = Inr (concat (map (\<lambda>w. '', '' @ quoted w) ws))"
  by (induction ws)
     (simp_all add: quoted_field_def quoted_def py_format_plain py_format_field sum.map_comp
                    o_def)

lemma format_names:
  "py_format (replace_str two_quotes quote_comma_quote
                (concat (replicate (length ws) quoted_field))) ws
     = Inr (join_str '', '' (map quoted ws))"
proof (cases ws)
  case Nil
  then show ?thesis by (simp add: replace_str_Nil two_quotes_def)
next
  case (Cons w vs)
  have j: "join_str '', '' (map quoted (w # vs))
             = quoted w @ concat (map (\<lambda>v. '', '' @ quoted v) vs)"
    by (induction vs arbitrary: w) simp_all
  have "py_format (quoted_field @ concat (replicate (length vs) ('', '' @ quoted_field))) (w # vs)
          = Inr (quoted w @ concat (map (\<lambda>v. '', '' @ quoted v) vs))"
    using format_more_names [of vs]
    by (simp add: quoted_field_def quoted_def py_format_plain py_format_field)
  with Cons j show ?thesis
    by (simp add: argument_string_names)
qed

lemma channel_tail:
  "replace_str field_joint field_joint_separated
     (''}, '' @ quoted_field @ concat (replicate n channel_field))
     = ''}, '' @ quoted_field @ concat (replicate n ('', '' @ channel_field))"
  unfolding field_joint_def field_joint_separated_def channel_field_def quoted_field_def
  by (induction n) (simp_all add: replace_str_eval)

lemma argument_string_channels:
  "replace_str field_joint field_joint_separated
     (channel_field @ concat (replicate n channel_field))
     = channel_field @ concat (replicate n ('', '' @ channel_field))"
  using channel_tail [of n]
  unfolding field_joint_def field_joint_separated_def channel_field_def quoted_field_def
  by (simp add: replace_str_nomatch)

lemma format_more_channels:
  "length ws \<le> length chs \<Longrightarrow>
   py_format (concat (replicate (length ws) ('', '' @ channel_field))) (format_arguments chs ws)
     = Inr (concat (map (\<lambda>p. '', '' @ channel_pair p) (zip chs ws)))"
proof (induction ws arbitrary: chs)
  case Nil
  then show ?case by (simp add: format_arguments_def)
next
  case (Cons w ws)
  then obtain c cs where chs: "chs = c # cs" by (cases chs) auto
  with Cons.prems have "length ws \<le> length cs" by simp
  from Cons.IH [OF this] chs show ?case
    by (simp add: format_arguments_def channel_field_def quoted_field_def quoted_def
                  channel_pair_def py_format_plain py_format_field)
qed

lemma format_more_channels_short:
  "length chs < length ws \<Longrightarrow>
   py_format (concat (replicate (length ws) ('', '' @ channel_field))) (format_arguments chs ws)
     = Inl (IndexError ''Replacement index out of range'')"
proof (induction chs arbitrary: ws)
  case Nil
  then obtain w vs where "ws = w # vs" by (cases ws) auto
  then show ?case
    by (simp add: format_arguments_def channel_field_def py_format_plain)
next
  case (Cons c cs)
  then obtain w vs where ws: "ws = w # vs" by (cases ws) auto
  with Cons.prems have "length cs < length vs" by simp
  from Cons.IH [OF this] ws show ?case
    by (simp add: format_arguments_def channel_field_def quoted_field_def
                  py_format_plain py_format_field)
qed

lemma join_pairs:
  "join_str '', '' (map f (x # xs)) = f x @ concat (map (\<lambda>p. '', '' @ f p) xs)"
  by (induction xs arbitrary: x) simp_all

lemma format_channels:
  assumes "length ws \<le> length chs"
  shows "py_format (replace_str field_joint field_joint_separated
                      (concat (replicate (length ws) channel_field)))
                   (format_arguments chs ws)
           = Inr (join_str '', '' (map channel_pair (zip chs ws)))"
proof (cases ws)
  case Nil
  then show ?thesis
    by (simp add: replace_str_Nil field_joint_def format_arguments_def)
next
  case (Cons w vs)
  with assms obtain c cs where chs: "chs = c # cs" by (cases chs) auto
  with assms Cons have le: "length vs \<le> length cs" by simp
  have "py_format (channel_field @ concat (replicate (length vs) ('', '' @ channel_field)))
          (format_arguments (c # cs) (w # vs))
        = Inr (channel_pair (c, w) @ concat (map (\<lambda>p. '', '' @ channel_pair p) (zip cs vs)))"
    using format_more_channels [OF le]
    by (simp add: format_arguments_def channel_field_def quoted_field_def quoted_def
                  channel_pair_def py_format_plain py_format_field)
  with Cons chs join_pairs [of channel_pair "(c, w)" "zip cs vs"] show ?thesis
    by (simp add: argument_string_channels)
qed

lemma format_channels_short:
  assumes "length chs < length ws"
  shows "py_format (replace_str field_joint field_joint_separated
                      (concat (replicate (length ws) channel_field)))
                   (format_arguments chs ws)
           = Inl (IndexError ''Replacement index out of range'')"
proof -
  from assms obtain w vs where ws: "ws = w # vs" by (cases ws) auto
  show ?thesis
  proof (cases chs)
    case Nil
    with ws show ?thesis
      by (simp add: argument_string_channels)
         (simp add: format_arguments_def channel_field_def)
  next
    case (Cons c cs)
    with assms ws have "length cs < length vs" by simp
    from format_more_channels_short [OF this] ws Cons show ?thesis
      by (simp add: argument_string_channels)
         (simp add: format_arguments_def channel_field_def quoted_field_def
                    py_format_plain py_format_field)
  qed
qed

lemma header_text:
  "py_format ''// generated by {}\<newline>'' [name] = Inr (header_line name)"
  by (simp add: py_format_plain header_line_def)

lemma with_header:
  "replace_str ''HEADER'' h (dedent template)
     = ''\<newline>'' @ h @ ''\<newline>while(true){\<newline>    playWave(WAVES);\<newline>}\<newline>''"
  by (simp add: dedent_template replace_str_eval)

lemma with_waves:
  "replace_str ''WAVES'' waves
     (''\<newline>'' @ (''// generated by '' @ name @ ''\<newline>'')
        @ ''\<newline>while(true){\<newline>    playWave(WAVES);\<newline>}\<newline>'')
     = program_text (replace_str ''WAVES'' waves name) waves"
proof -
  have tail: "replace_str ''WAVES'' waves
                ''\<newline>while(true){\<newline>    playWave(WAVES);\<newline>}\<newline>''
              = ''\<newline>while(true){\<newline>    playWave('' @ waves @ '');\<newline>}\<newline>''"
    by (simp add: replace_str_eval)
  have mid: "replace_str ''WAVES'' waves
               (name @ CHR 0x0A # ''\<newline>while(true){\<newline>    playWave(WAVES);\<newline>}\<newline>'')
             = replace_str ''WAVES'' waves name @ CHR 0x0A
                 # replace_str ''WAVES'' waves
                     ''\<newline>while(true){\<newline>    playWave(WAVES);\<newline>}\<newline>''"
    by (rule replace_str_barrier) simp_all
  have front: "replace_str ''WAVES'' waves (''\<newline>// generated by '' @ rest)
                 = ''\<newline>// generated by '' @ replace_str ''WAVES'' waves rest" for rest
    by (simp add: replace_str_skip)
  have "replace_str ''WAVES'' waves
          (''\<newline>'' @ (''// generated by '' @ name @ ''\<newline>'')
             @ ''\<newline>while(true){\<newline>    playWave(WAVES);\<newline>}\<newline>'')
        = replace_str ''WAVES'' waves
            (''\<newline>// generated by ''
               @ (name @ CHR 0x0A # ''\<newline>while(true){\<newline>    playWave(WAVES);\<newline>}\<newline>''))"
    by simp
  also have "\<dots> = ''\<newline>// generated by ''
               @ replace_str ''WAVES'' waves name @ CHR 0x0A
                 # ''\<newline>while(true){\<newline>    playWave('' @ waves @ '');\<newline>}\<newline>''"
    unfolding front mid tail by simp
  finally show ?thesis by (simp add: program_text_def)
qed

lemma assembled:
  "replace_str ''WAVES'' waves (replace_str ''HEADER'' (header_line name) (dedent template))
     = program_text (replace_str ''WAVES'' waves name) waves"
  unfolding with_header header_line_def by (rule with_waves)

lemma is_substring_iff: "is_substring p s \<longleftrightarrow> (\<exists>a b. s = a @ p @ b)"
proof (induction s)
  case Nil
  then show ?case by auto
next
  case (Cons c cs)
  show ?case
  proof
    assume "is_substring p (c # cs)"
    then consider "prefix p (c # cs)" | "is_substring p cs" by auto
    then show "\<exists>a b. c # cs = a @ p @ b"
    proof cases
      case 1
      then obtain b where "c # cs = p @ b" by (auto simp: prefix_def)
      then have "c # cs = [] @ p @ b" by simp
      then show ?thesis by blast
    next
      case 2
      with Cons obtain a b where "cs = a @ p @ b" by auto
      then have "c # cs = (c # a) @ p @ b" by simp
      then show ?thesis by blast
    qed
  next
    assume "\<exists>a b. c # cs = a @ p @ b"
    then obtain a b where ab: "c # cs = a @ p @ b" by auto
    show "is_substring p (c # cs)"
    proof (cases a)
      case Nil
      with ab have "prefix p (c # cs)" by (simp add: prefix_def)
      then show ?thesis by simp
    next
      case (Cons x xs)
      with ab have "cs = xs @ p @ b" by simp
      with Cons.IH show ?thesis by auto
    qed
  qed
qed

lemma replace_str_absent:
  "old \<noteq> [] \<Longrightarrow> \<not> is_substring old s \<Longrightarrow> replace_str old new s = s"
proof (induction s)
  case Nil
  then show ?case by (simp add: replace_str_Nil)
next
  case (Cons c cs)
  from Cons.prems have np: "\<not> prefix old (c # cs)" and ns: "\<not> is_substring old cs"
    by auto
  have "take (length old) (c # cs) \<noteq> old"
  proof
    assume "take (length old) (c # cs) = old"
    then have "prefix old (c # cs)" by (metis take_is_prefix)
    with np show False by simp
  qed
  with Cons.prems(1) have "replace_str old new (c # cs) = c # replace_str old new cs"
    by (rule replace_str_nomatch)
  with Cons.IH [OF Cons.prems(1) ns] show ?case by simp
qed

subsection \<open>The generated sequence program\<close>

lemma generate_without_channels:
  "generate_csv_sequence_program name ws None
     = Inr (program_text (replace_str ''WAVES'' (join_str '', '' (map quoted ws)) name)
                         (join_str '', '' (map quoted ws)))"
  by (simp add: generate_csv_sequence_program_def header_text format_names assembled Let_def
           del: py_format.simps)

lemma generate_with_channels:
  "length ws \<le> length chs \<Longrightarrow>
   generate_csv_sequence_program name ws (Some chs)
     = Inr (program_text
              (replace_str ''WAVES'' (join_str '', '' (map channel_pair (zip chs ws))) name)
              (join_str '', '' (map channel_pair (zip chs ws))))"
  using format_channels [of ws chs]
  by (simp add: generate_csv_sequence_program_def header_text
                format_arguments_def assembled Let_def del: py_format.simps)

lemma generate_too_few_channels:
  "length chs < length ws \<Longrightarrow>
   generate_csv_sequence_program name ws (Some chs)
     = Inl (IndexError ''Replacement index out of range'')"
  using format_channels_short [of chs ws]
  by (simp add: generate_csv_sequence_program_def header_text
                format_arguments_def Let_def del: py_format.simps)

lemma program_text_contains:
  "is_substring (''// generated by '' @ h @ ''\<newline>'') (program_text h waves)
   \<and> is_substring (''while(true){\<newline>    playWave('' @ waves @ '');\<newline>}'') (program_text h waves)"
proof -
  have "program_text h waves
          = ''\<newline>'' @ (''// generated by '' @ h @ ''\<newline>'')
              @ (''\<newline>while(true){\<newline>    playWave('' @ waves @ '');\<newline>}\<newline>'')"
    by (simp add: program_text_def)
  moreover have "program_text h waves
          = (''\<newline>// generated by '' @ h @ ''\<newline>\<newline>'')
              @ (''while(true){\<newline>    playWave('' @ waves @ '');\<newline>}'') @ ''\<newline>''"
    by (simp add: program_text_def)
  ultimately show ?thesis
    unfolding is_substring_iff by blast
qed

lemma program_text_call:
  "is_substring (''playWave('' @ waves @ '')'') (program_text h waves)"
proof -
  have "program_text h waves
          = (''\<newline>// generated by '' @ h @ ''\<newline>\<newline>while(true){\<newline>    '')
              @ (''playWave('' @ waves @ '')'') @ '';\<newline>}\<newline>''"
    by (simp add: program_text_def)
  then show ?thesis
    unfolding is_substring_iff by blast
qed

text \<open>
  Outside the contract of parallel lists: with fewer channels than wave names \<^verbatim>\<open>zip\<close>
  stops early, the template keeps two fields for every wave name, and \<^verbatim>\<open>format\<close>
  raises \<^verbatim>\<open>IndexError\<close>.
\<close>

lemma too_few_channels_example:
  "generate_csv_sequence_program ''ZIHDAWG8'' [''wave1'', ''wave2''] (Some [0])
     = Inl (IndexError ''Replacement index out of range'')"
  by (rule generate_too_few_channels) simp

text \<open>
  Claim C6. For every non-empty list of wave names the function returns the program
  text: a header comment, and a \<^verbatim>\<open>while(true)\<close> loop around a \<^verbatim>\<open>playWave\<close> call whose
  arguments are the quoted wave names in order when no channel list is given, and the
  pairs of channel number and quoted name in order when a channel list is given, which
  by the contract of the function (spec 4.2) is a parallel list of equal length. The
  header names the module (when the module name holds the text \<^verbatim>\<open>WAVES\<close>, the last
  replacement also rewrites it there). For the wave names \<^verbatim>\<open>wave1\<close>, \<^verbatim>\<open>wave2\<close> the
  program contains the call on the two quoted names, and with the channels 0 and 1 the
  call on \<^verbatim>\<open>0\<close>, the first quoted name, \<^verbatim>\<open>1\<close>, the second quoted name.
\<close>

theorem generated_program_text:
  "(ws \<noteq> [] \<longrightarrow>
      (\<exists>h. generate_csv_sequence_program name ws None
              = Inr (program_text h (join_str '', '' (map quoted ws)))
         \<and> (\<not> is_substring ''WAVES'' name \<longrightarrow> h = name)))
   \<and> (ws \<noteq> [] \<and> length chs = length ws \<longrightarrow>
        (\<exists>h. generate_csv_sequence_program name ws (Some chs)
                = Inr (program_text h (join_str '', '' (map channel_pair (zip chs ws))))
           \<and> (\<not> is_substring ''WAVES'' name \<longrightarrow> h = name)))
   \<and> (\<forall>h waves.
          is_substring (''// generated by '' @ h @ ''\<newline>'') (program_text h waves)
        \<and> is_substring (''while(true){\<newline>    playWave('' @ waves @ '');\<newline>}'')
                        (program_text h waves))
   \<and> (\<exists>prog. generate_csv_sequence_program name [''wave1'', ''wave2''] None = Inr prog
          \<and> is_substring (''playWave('' @ quoted ''wave1'' @ '', '' @ quoted ''wave2'' @ '')'')
                          prog)
   \<and> (\<exists>prog. generate_csv_sequence_program name [''wave1'', ''wave2''] (Some [0, 1]) = Inr prog
          \<and> is_substring (''playWave(0, '' @ quoted ''wave1'' @ '', 1, '' @ quoted ''wave2''
                             @ '')'') prog)"
proof (intro conjI impI allI)
  show "\<exists>h. generate_csv_sequence_program name ws None
           = Inr (program_text h (join_str '', '' (map quoted ws)))
        \<and> (\<not> is_substring ''WAVES'' name \<longrightarrow> h = name)"
    using generate_without_channels [of name ws] replace_str_absent [of "''WAVES''" name]
    by auto
next
  assume "ws \<noteq> [] \<and> length chs = length ws"
  then have "length ws \<le> length chs" by simp
  then show "\<exists>h. generate_csv_sequence_program name ws (Some chs)
                = Inr (program_text h (join_str '', '' (map channel_pair (zip chs ws))))
           \<and> (\<not> is_substring ''WAVES'' name \<longrightarrow> h = name)"
    using generate_with_channels [of ws chs name] replace_str_absent [of "''WAVES''" name]
    by auto
next
  fix h waves
  show "is_substring (''// generated by '' @ h @ ''\<newline>'') (program_text h waves)"
    using program_text_contains by blast
  show "is_substring (''while(true){\<newline>    playWave('' @ waves @ '');\<newline>}'')
                        (program_text h waves)"
    using program_text_contains by blast
next
  have "join_str '', '' (map quoted [''wave1'', ''wave2''])
          = quoted ''wave1'' @ '', '' @ quoted ''wave2''"
    by simp
  then show "\<exists>prog. generate_csv_sequence_program name [''wave1'', ''wave2''] None = Inr prog
          \<and> is_substring (''playWave('' @ quoted ''wave1'' @ '', '' @ quoted ''wave2'' @ '')'')
                          prog"
    using generate_without_channels [of name "[''wave1'', ''wave2'']"]
          program_text_call [of "quoted ''wave1'' @ '', '' @ quoted ''wave2''"]
    by simp
next
  have "join_str '', '' (map channel_pair (zip [0, 1] [''wave1'', ''wave2'']))
          = ''0, '' @ quoted ''wave1'' @ '', 1, '' @ quoted ''wave2''"
    by (simp add: channel_pair_def str_int_def digits_of_small)
  moreover have "generate_csv_sequence_program name [''wave1'', ''wave2''] (Some [0, 1])
                   = Inr (program_text
                       (replace_str ''WAVES''
                          (join_str '', '' (map channel_pair (zip [0, 1] [''wave1'', ''wave2''])))
                          name)
                       (join_str '', '' (map channel_pair (zip [0, 1] [''wave1'', ''wave2'']))))"
    by (rule generate_with_channels) simp
  ultimately
  show "\<exists>prog. generate_csv_sequence_program name [''wave1'', ''wave2''] (Some [0, 1]) = Inr prog
          \<and> is_substring (''playWave(0, '' @ quoted ''wave1'' @ '', 1, '' @ quoted ''wave2''
                             @ '')'') prog"
    using program_text_call [of "''0, '' @ quoted ''wave1'' @ '', 1, '' @ quoted ''wave2''"]
    by simp
qed

theorem generated_program_text_witness:
  "generate_csv_sequence_program ''ZIHDAWG8'' [''wave1'', ''wave2''] (Some [0, 1])
     = Inr (program_text ''ZIHDAWG8'' (''0, '' @ quoted ''wave1'' @ '', 1, '' @ quoted ''wave2''))
   \<and> generate_csv_sequence_program ''ZIHDAWG8'' [''wave1'', ''wave2''] None
     = Inr (program_text ''ZIHDAWG8'' (quoted ''wave1'' @ '', '' @ quoted ''wave2''))"
proof -
  note t = generated_program_text [of "[''wave1'', ''wave2'']" "''ZIHDAWG8''" "[0, 1]"]
  have absent: "\<not> is_substring ''WAVES'' ''ZIHDAWG8''"
    by simp
  have ne: "[''wave1'', ''wave2''] \<noteq> []"
    by simp
  have eq: "[''wave1'', ''wave2''] \<noteq> [] \<and> length [0::int, 1] = length [''wave1'', ''wave2'']"
    by simp
  have pairs: "join_str '', '' (map channel_pair (zip [0, 1] [''wave1'', ''wave2'']))
                 = ''0, '' @ quoted ''wave1'' @ '', 1, '' @ quoted ''wave2''"
    by (simp add: channel_pair_def str_int_def digits_of_small)
  have names: "join_str '', '' (map quoted [''wave1'', ''wave2''])
                 = quoted ''wave1'' @ '', '' @ quoted ''wave2''"
    by simp
  from t [THEN conjunct2, THEN conjunct1] eq absent
  have a: "generate_csv_sequence_program ''ZIHDAWG8'' [''wave1'', ''wave2''] (Some [0, 1])
     = Inr (program_text ''ZIHDAWG8''
              (join_str '', '' (map channel_pair (zip [0, 1] [''wave1'', ''wave2'']))))"
    by blast
  from t [THEN conjunct1] ne absent
  have b: "generate_csv_sequence_program ''ZIHDAWG8'' [''wave1'', ''wave2''] None
     = Inr (program_text ''ZIHDAWG8'' (join_str '', '' (map quoted [''wave1'', ''wave2''])))"
    by blast
  from a b show ?thesis
    unfolding pairs names by (rule conjI)
qed

subsection \<open>Exporting waveforms\<close>

lemma missing_directory_message:
  "py_format ''AWG module wave directory {} does not exist or is not a directory'' [d]
     = Inr (''AWG module wave directory '' @ d @ '' does not exist or is not a directory'')"
  by (simp add: py_format_plain)

lemma shortest_le: "w \<in> set ws \<Longrightarrow> shortest ws \<le> length w"
  by (induction ws rule: shortest.induct) auto

lemma shortest_empty: "[] \<in> set ws \<Longrightarrow> shortest ws = 0"
  using shortest_le [of "[]" ws] by simp

lemma shortest_tl: "shortest (map tl ws) = shortest ws - 1"
  by (induction ws rule: shortest.induct) auto

lemma shortest_pos: "ws \<noteq> [] \<Longrightarrow> [] \<notin> set ws \<Longrightarrow> 0 < shortest ws"
  by (induction ws rule: shortest.induct) auto

lemma shortest_Min: "ws \<noteq> [] \<Longrightarrow> shortest ws = Min (length ` set ws)"
proof (induction ws rule: shortest.induct)
  case 1
  then show ?case by simp
next
  case (2 w)
  then show ?case by simp
next
  case (3 w v ws)
  then have "shortest (v # ws) = Min (length ` set (v # ws))" by simp
  then show ?case by (simp add: min_def)
qed

lemma zip_star_rows:
  "zip_star ws = map (\<lambda>i. map (\<lambda>w. w ! i) ws) [0..<shortest ws]"
proof (induction ws rule: zip_star.induct)
  case (1 ws)
  show ?case
  proof (cases "ws = [] \<or> [] \<in> set ws")
    case True
    then have "shortest ws = 0" by (auto simp: shortest_empty)
    with True show ?thesis by (simp add: zip_star.simps)
  next
    case False
    then have ne: "ws \<noteq> []" and full: "[] \<notin> set ws" by simp_all
    from shortest_pos [OF ne full] obtain k where k: "shortest ws = Suc k"
      by (cases "shortest ws") auto
    then have tl_len: "shortest (map tl ws) = k"
      by (simp add: shortest_tl)
    have "hd w = w ! 0" if "w \<in> set ws" for w
    proof -
      from that full have "w \<noteq> []" by auto
      then show ?thesis by (rule hd_conv_nth)
    qed
    then have heads: "map hd ws = map (\<lambda>w. w ! 0) ws"
      by simp
    have tails: "map (\<lambda>w. w ! i) (map tl ws) = map (\<lambda>w. w ! Suc i) ws" if "i < k" for i
    proof -
      have "tl w ! i = w ! Suc i" if "w \<in> set ws" for w
      proof -
        from that shortest_le [of w ws] k \<open>i < k\<close> have "Suc i < length w" by simp
        then show ?thesis by (simp add: nth_tl)
      qed
      then show ?thesis by simp
    qed
    have "zip_star ws = map hd ws # zip_star (map tl ws)"
      using False by (subst zip_star.simps) simp
    also have "zip_star (map tl ws) = map (\<lambda>i. map (\<lambda>w. w ! i) (map tl ws)) [0..<k]"
      using 1 False tl_len by simp
    also have "\<dots> = map (\<lambda>i. map (\<lambda>w. w ! Suc i) ws) [0..<k]"
      using tails by simp
    also have "map hd ws # map (\<lambda>i. map (\<lambda>w. w ! Suc i) ws) [0..<k]
                 = map (\<lambda>i. map (\<lambda>w. w ! i) ws) [0..<Suc k]"
      unfolding heads by (simp add: upt_conv_Cons map_Suc_upt [symmetric] del: upt_Suc)
    finally show ?thesis by (simp only: k)
  qed
qed

lemma csv_row_plain:
  assumes "\<forall>f \<in> set cells. \<not> needs_quotes f" and "cells \<noteq> [[]]"
  shows "csv_row cells = join_str '';'' cells @ [CHR 0x0D, CHR 0x0A]"
proof -
  from assms(1) have "map csv_field cells = cells"
    by (induction cells) (auto simp: csv_field_def)
  with assms(2) show ?thesis by (simp add: csv_row_def)
qed

text \<open>
  Claim C9. When the module reports its data directory and the \<^verbatim>\<open>awg/waves\<close> directory
  under it is no directory, \<^verbatim>\<open>waveform_to_csv\<close> raises a plain \<^verbatim>\<open>Exception\<close> whose message
  names that directory, for every wave name and every list of waveforms. The only call
  made is the read of the data directory, and the file system is returned as it was:
  no file is opened or written.
\<close>

theorem missing_wave_directory_raises:
  assumes "getString_outcome m (n_getString s) = Inr data_dir"
    and "\<not> is_dir fs (path_join data_dir [''awg'', ''waves''])"
  shows "waveform_to_csv str_of m wave_name waveforms s fs
           = (Inl (Exception (''AWG module wave directory ''
                                @ path_join data_dir [''awg'', ''waves'']
                                @ '' does not exist or is not a directory'')),
              s\<lparr>n_getString := Suc (n_getString s),
                calls := calls s @ [AwgGetString ''awgModule/directory'']\<rparr>,
              fs)"
  using assms
  by (simp add: waveform_to_csv_def awg_getString_def Let_def missing_directory_message
           del: py_format.simps path_join.simps)

theorem missing_wave_directory_raises_witness:
  "waveform_to_csv str_int labone_module ''w'' [[1, 2], [3, 4]] awg_init bare_disk
     = (Inl (Exception ''AWG module wave directory /home/lab/LabOne/awg/waves does not exist or is not a directory''),
        \<lparr>n_set = 0, n_getInt = 0, n_getString = 1, n_getDouble = 0,
         calls = [AwgGetString ''awgModule/directory'']\<rparr>,
        bare_disk)"
proof -
  have a: "getString_outcome labone_module (n_getString awg_init) = Inr ''/home/lab/LabOne''"
    by (simp add: labone_module_def)
  have b: "\<not> is_dir bare_disk (path_join ''/home/lab/LabOne'' [''awg'', ''waves''])"
    by (simp add: bare_disk_def)
  from missing_wave_directory_raises [OF a b, of str_int "''w''" "[[1, 2], [3, 4]]"]
  show ?thesis by (simp add: awg_init_def)
qed

text \<open>
  Claim C10. When the directory exists and the file can be opened, the file written
  holds one row for every index below the length of the shortest waveform (the
  minimum of the lengths, when there is a waveform at all) and no other row: row \<open>i\<close>
  is the CSV row of the \<open>i\<close>-th samples of the waveforms in argument order. Where the
  texts of these samples are not empty and need no quoting, the row is their texts
  joined by semicolons and ended by carriage return and line feed. Samples at or
  beyond the shortest length appear nowhere in the file.
\<close>

theorem csv_rows_stop_at_shortest:
  assumes "getString_outcome m (n_getString s) = Inr data_dir"
    and "is_dir fs (path_join data_dir [''awg'', ''waves''])"
    and "open_error fs (path_join (path_join data_dir [''awg'', ''waves''])
                                  [wave_name @ ''.csv'']) = None"
  shows "waveform_to_csv str_of m wave_name ws s fs
           = (Inr (),
              s\<lparr>n_getString := Suc (n_getString s),
                calls := calls s @ [AwgGetString ''awgModule/directory'']\<rparr>,
              fs\<lparr>files := (files fs)
                 (path_join (path_join data_dir [''awg'', ''waves'']) [wave_name @ ''.csv'']
                    \<mapsto> concat (map (\<lambda>i. csv_row (map (\<lambda>w. str_of (w ! i)) ws))
                                     [0..<shortest ws]))\<rparr>)
         \<and> (ws \<noteq> [] \<longrightarrow> shortest ws = Min (length ` set ws))
         \<and> (\<forall>i. (\<forall>w \<in> set ws. str_of (w ! i) \<noteq> [] \<and> \<not> needs_quotes (str_of (w ! i))) \<longrightarrow>
                csv_row (map (\<lambda>w. str_of (w ! i)) ws)
                  = join_str '';'' (map (\<lambda>w. str_of (w ! i)) ws) @ [CHR 0x0D, CHR 0x0A])"
proof (intro conjI impI allI)
  have "writerows str_of (zip_star ws)
          = concat (map (\<lambda>i. csv_row (map (\<lambda>w. str_of (w ! i)) ws)) [0..<shortest ws])"
    by (simp add: writerows_def zip_star_rows o_def)
  with assms
  show "waveform_to_csv str_of m wave_name ws s fs
           = (Inr (),
              s\<lparr>n_getString := Suc (n_getString s),
                calls := calls s @ [AwgGetString ''awgModule/directory'']\<rparr>,
              fs\<lparr>files := (files fs)
                 (path_join (path_join data_dir [''awg'', ''waves'']) [wave_name @ ''.csv'']
                    \<mapsto> concat (map (\<lambda>i. csv_row (map (\<lambda>w. str_of (w ! i)) ws))
                                     [0..<shortest ws]))\<rparr>)"
    by (simp add: waveform_to_csv_def awg_getString_def Let_def del: path_join.simps)
next
  assume "ws \<noteq> []"
  then show "shortest ws = Min (length ` set ws)" by (rule shortest_Min)
next
  fix i
  assume plain: "\<forall>w \<in> set ws. str_of (w ! i) \<noteq> [] \<and> \<not> needs_quotes (str_of (w ! i))"
  have "map (\<lambda>w. str_of (w ! i)) ws \<noteq> [[]]"
  proof
    assume "map (\<lambda>w. str_of (w ! i)) ws = [[]]"
    then obtain w where "ws = [w]" "str_of (w ! i) = []" by auto
    with plain show False by simp
  qed
  moreover from plain have "\<forall>f \<in> set (map (\<lambda>w. str_of (w ! i)) ws). \<not> needs_quotes f"
    by simp
  ultimately show "csv_row (map (\<lambda>w. str_of (w ! i)) ws)
                  = join_str '';'' (map (\<lambda>w. str_of (w ! i)) ws) @ [CHR 0x0D, CHR 0x0A]"
    by (intro csv_row_plain) simp_all
qed

theorem csv_rows_stop_at_shortest_witness:
  "(\<exists>s' fs'. waveform_to_csv str_int labone_module ''w'' [[1, 2, 3], [- 4, - 5]]
                 awg_init prepared_disk = (Inr (), s', fs')
        \<and> files fs' ''/home/lab/LabOne/awg/waves/w.csv''
            = Some (''1;-4'' @ [CHR 0x0D, CHR 0x0A] @ ''2;-5'' @ [CHR 0x0D, CHR 0x0A]))
   \<and> shortest [[1, 2, 3], [- 4, - 5 :: int]] = Min (length ` set [[1, 2, 3], [- 4, - 5 :: int]])
   \<and> csv_row (map (\<lambda>w. str_int (w ! 0)) [[1, 2, 3], [- 4, - 5]])
        = ''1;-4'' @ [CHR 0x0D, CHR 0x0A]"
proof -
  let ?ws = "[[1, 2, 3], [- 4, - 5 :: int]]"
  let ?file = "path_join (path_join ''/home/lab/LabOne'' [''awg'', ''waves'']) [''w'' @ ''.csv'']"
  let ?text = "concat (map (\<lambda>i. csv_row (map (\<lambda>w. str_int (w ! i)) ?ws)) [0..<shortest ?ws])"
  have a: "getString_outcome labone_module (n_getString awg_init) = Inr ''/home/lab/LabOne''"
    by (simp add: labone_module_def)
  have b: "is_dir prepared_disk (path_join ''/home/lab/LabOne'' [''awg'', ''waves''])"
    by (simp add: prepared_disk_def)
  have c: "open_error prepared_disk ?file = None"
    by (simp add: prepared_disk_def)
  note t = csv_rows_stop_at_shortest [OF a b c, of str_int ?ws]
  note t1 = t [THEN conjunct1]
  note t2 = t [THEN conjunct2, THEN conjunct1]
  note t3 = t [THEN conjunct2, THEN conjunct2]
  have target: "?file = ''/home/lab/LabOne/awg/waves/w.csv''"
    by simp
  have content: "?text = ''1;-4'' @ [CHR 0x0D, CHR 0x0A] @ ''2;-5'' @ [CHR 0x0D, CHR 0x0A]"
    by (simp add: numeral_2_eq_2 csv_row_def csv_field_def needs_quotes_def str_int_def
                  digits_of_small)
  have first: "\<exists>s' fs'. waveform_to_csv str_int labone_module ''w'' ?ws awg_init prepared_disk
                 = (Inr (), s', fs')
        \<and> files fs' ''/home/lab/LabOne/awg/waves/w.csv''
            = Some (''1;-4'' @ [CHR 0x0D, CHR 0x0A] @ ''2;-5'' @ [CHR 0x0D, CHR 0x0A])"
    unfolding t1 content target by simp
  have ne: "?ws \<noteq> []" by simp
  have second: "shortest ?ws = Min (length ` set ?ws)"
    using t2 ne by (rule mp)
  have plain0: "\<forall>w \<in> set ?ws. str_int (w ! 0) \<noteq> [] \<and> \<not> needs_quotes (str_int (w ! 0))"
    by (simp add: str_int_def digits_of_small needs_quotes_def)
  have "csv_row (map (\<lambda>w. str_int (w ! 0)) ?ws)
          = join_str '';'' (map (\<lambda>w. str_int (w ! 0)) ?ws) @ [CHR 0x0D, CHR 0x0A]"
    using spec [OF t3, of 0] plain0 by (rule mp)
  then have third: "csv_row (map (\<lambda>w. str_int (w ! 0)) ?ws) = ''1;-4'' @ [CHR 0x0D, CHR 0x0A]"
    by (simp add: str_int_def digits_of_small)
  from first second third show ?thesis by (intro conjI)
qed

end
